theory Spec2Isabelle
  imports Main "HOL-Library.Word"
begin

unbundle bit_operations_syntax

section \<open>Common types\<close>

type_synonym byte = "8 word"
type_synonym bytes = "byte list"

text \<open>
  Go errors as values. \<open>Xerror\<close> carries the message of an \<open>xerrors.New\<close>;
  \<open>ErrNotFound\<close> is \<open>format.ErrNotFound{Cid: c}\<close> and \<open>KvErrNotFound\<close> is
  \<open>kv.ErrNotFound\<close>; \<open>ErrInternal\<close> is a failure of the key-value store or of a storage
  backend surfaced by a collaborator, \<open>ErrNoSpace\<close> a full disk and \<open>ErrCorrupt\<close> a
  corrupted record (spec sections 4.A and 7); \<open>ErrCreateCask\<close> is the error of
  \<open>os.OpenFile\<close>; \<open>Panic\<close> is a Go run-time panic.
\<close>

datatype error =
    AccessDenied
  | ErrNotFound string
  | ErrInternal
  | Xerror string
  | KvErrNotFound
  | ErrNoSpace
  | ErrCorrupt
  | ErrInvShardNum
  | ErrCreateCask
  | ErrWrongHash
  | ErrHashMismatch
  | Panic string

text \<open>\<open>blocks.Block\<close>: the content identifier (as its string form) and the payload.\<close>

record Block =
  Cid :: string
  RawData :: bytes

section \<open>Package poolservice: the DagPool service\<close>

subsection \<open>Users and policies (package dpuser, upolicy)\<close>

text \<open>
  \<open>upolicy.DagPoolPolicy\<close> is a string type. Modelled from the spec: the three policy
  constants of package upolicy are not in the sources; spec section 6 names them
  read-only, write-only and read-write.
\<close>

type_synonym DagPoolPolicy = string

definition ReadOnly :: DagPoolPolicy where "ReadOnly = ''read-only''"
definition WriteOnly :: DagPoolPolicy where "WriteOnly = ''write-only''"
definition ReadWrite :: DagPoolPolicy where "ReadWrite = ''read-write''"

record DagPoolUser =
  Username :: string
  Password :: string
  Policy :: DagPoolPolicy
  Capacity :: "64 word"

text \<open>
  Modelled from the spec: \<open>dpuser.IdentityUserSys\<close> is not in the sources. It is built by
  \<open>NewIdentityUserSys(db, cfg.RootUser, cfg.RootPassword)\<close>: the root credentials of the
  configuration and the persisted user records (spec section 4.I). \<open>iamFails\<close> is the
  environment: the set of user names for which a write to the key-value store fails.
\<close>

record IdentityUserSys =
  rootUser :: string
  rootPassword :: string
  users :: "string \<rightharpoonup> DagPoolUser"
  iamFails :: "string \<Rightarrow> bool"

text \<open>Modelled from the spec: \<open>IsAdmin\<close>, the name is the root user's.\<close>

definition IsAdmin :: "IdentityUserSys \<Rightarrow> string \<Rightarrow> bool" where
  "IsAdmin sys username = (username = rootUser sys)"

text \<open>Modelled from the spec: \<open>CheckAdmin\<close>, the credentials are the root user's.\<close>

definition CheckAdmin :: "IdentityUserSys \<Rightarrow> string \<Rightarrow> string \<Rightarrow> bool" where
  "CheckAdmin sys username password =
     (username = rootUser sys \<and> password = rootPassword sys)"

text \<open>Modelled from the spec: \<open>CheckUser\<close>, the credentials are the root user's or a stored user's.\<close>

definition CheckUser :: "IdentityUserSys \<Rightarrow> string \<Rightarrow> string \<Rightarrow> bool" where
  "CheckUser sys username password =
     (CheckAdmin sys username password \<or>
      (case users sys username of
         None \<Rightarrow> False
       | Some u \<Rightarrow> Password u = password))"

text \<open>
  Modelled from the spec: \<open>DagPoolPolicy.Allow\<close>. A read-write user may read and write;
  a write-only user may \<open>Add\<close> but not \<open>Get\<close> (spec section 9).
\<close>

definition Allow :: "DagPoolPolicy \<Rightarrow> DagPoolPolicy \<Rightarrow> bool" where
  "Allow held required = (held = ReadWrite \<or> held = required)"

text \<open>
  Modelled from the spec: \<open>CheckUserPolicy\<close>, the capability check \<open>may(user, op)\<close> of
  spec section 1: valid credentials whose policy allows the operation.
\<close>

definition CheckUserPolicy ::
  "IdentityUserSys \<Rightarrow> string \<Rightarrow> string \<Rightarrow> DagPoolPolicy \<Rightarrow> bool" where
  "CheckUserPolicy sys username password required =
     (CheckAdmin sys username password \<or>
      (case users sys username of
         None \<Rightarrow> False
       | Some u \<Rightarrow> Password u = password \<and> Allow (Policy u) required))"

text \<open>Modelled from the spec: \<open>IdentityUserSys.QueryUser\<close>, the stored record or an error.\<close>

definition iam_QueryUser :: "IdentityUserSys \<Rightarrow> string \<Rightarrow> error + DagPoolUser" where
  "iam_QueryUser sys username =
     (case users sys username of
        None \<Rightarrow> Inl KvErrNotFound
      | Some u \<Rightarrow> Inr u)"

text \<open>
  Modelled from the spec: \<open>IdentityUserSys.AddUser\<close>, \<open>UpdateUser\<close> and \<open>RemoveUser\<close>
  write or delete the record stored under the user's name; a failing store surfaces an
  internal error and changes nothing.
\<close>

definition iam_AddUser :: "IdentityUserSys \<Rightarrow> DagPoolUser \<Rightarrow> error option \<times> IdentityUserSys" where
  "iam_AddUser sys u =
     (if iamFails sys (Username u) then (Some ErrInternal, sys)
      else (None, sys\<lparr>users := (users sys)(Username u \<mapsto> u)\<rparr>))"

definition iam_UpdateUser :: "IdentityUserSys \<Rightarrow> DagPoolUser \<Rightarrow> error option \<times> IdentityUserSys" where
  "iam_UpdateUser sys u =
     (if iamFails sys (Username u) then (Some ErrInternal, sys)
      else (None, sys\<lparr>users := (users sys)(Username u \<mapsto> u)\<rparr>))"

definition iam_RemoveUser :: "IdentityUserSys \<Rightarrow> string \<Rightarrow> error option \<times> IdentityUserSys" where
  "iam_RemoveUser sys username =
     (if iamFails sys username then (Some ErrInternal, sys)
      else (None, sys\<lparr>users := (users sys)(username := None)\<rparr>))"

subsection \<open>The service state\<close>

text \<open>
  The calls of the service to its collaborators that can fail in the environment
  (key-value store or storage backend), each on a key.
\<close>

datatype call = RefHas | RefIncr | RefDecr | CacheHas | CacheAdd | PutBlock | ReadBlock | ReadBlockSize

text \<open>The storage requests the service issues to the DagNodes, in order.\<close>

datatype io = IoPut string | IoGet string | IoGetSize string

text \<open>
  \<open>dagPoolService\<close>. \<open>refCounter\<close> and \<open>cacheSet\<close> are the persisted reference counts and
  cache set; \<open>blockStore\<close> stands for the blocks held by the DagNodes behind the slot
  table, \<open>ioLog\<close> for the requests sent to them; \<open>gcInterrupted\<close> is the signal of
  \<open>gcControl\<close>; \<open>fails\<close> is the environment.
\<close>

record dagPoolService =
  iam :: IdentityUserSys
  refCounter :: "string \<rightharpoonup> nat"
  cacheSet :: "string set"
  blockStore :: "string \<rightharpoonup> bytes"
  ioLog :: "io list"
  gcInterrupted :: bool
  fails :: "call \<Rightarrow> string \<Rightarrow> bool"

definition refcount :: "dagPoolService \<Rightarrow> string \<Rightarrow> nat" where
  "refcount d key = (case refCounter d key of None \<Rightarrow> 0 | Some n \<Rightarrow> n)"

subsection \<open>Reference counter, cache set, GC control and block routing\<close>

text \<open>
  Modelled from the spec: \<open>RefCounter.Has\<close> is not in the sources. Spec section 4.E:
  true iff refcount \<ge> 1; a failure of the store is surfaced (section 7).
\<close>

definition RefCounter_Has :: "dagPoolService \<Rightarrow> string \<Rightarrow> error + bool" where
  "RefCounter_Has d key =
     (if fails d RefHas key then Inl ErrInternal else Inr (1 \<le> refcount d key))"

text \<open>Modelled from the spec: \<open>CacheSet.Has\<close> and \<open>CacheSet.Add\<close>, a persistent set (section 4.E).\<close>

definition CacheSet_Has :: "dagPoolService \<Rightarrow> string \<Rightarrow> error + bool" where
  "CacheSet_Has d key =
     (if fails d CacheHas key then Inl ErrInternal else Inr (key \<in> cacheSet d))"

definition CacheSet_Add :: "string \<Rightarrow> dagPoolService \<Rightarrow> error option \<times> dagPoolService" where
  "CacheSet_Add key d =
     (if fails d CacheAdd key then (Some ErrInternal, d)
      else (None, d\<lparr>cacheSet := insert key (cacheSet d)\<rparr>))"

text \<open>
  Modelled from the spec: \<open>RefCounter.IncrOrCreate\<close> (section 4.E). It increments the count
  of the key; if the count was zero or absent it runs \<open>create_fn\<close> once, and if that fails
  the counter is rolled back and the error returned; a key that was in the cache set is
  removed from it.
\<close>

definition IncrOrCreate ::
  "string \<Rightarrow> (dagPoolService \<Rightarrow> error option \<times> dagPoolService) \<Rightarrow> dagPoolService
     \<Rightarrow> error option \<times> dagPoolService" where
  "IncrOrCreate key create_fn d =
     (if fails d RefIncr key then (Some ErrInternal, d)
      else if refcount d key = 0 then
        (case create_fn d of
           (Some e, d') \<Rightarrow> (Some e, d')
         | (None, d') \<Rightarrow>
             (None, d'\<lparr>refCounter := (refCounter d')(key \<mapsto> 1),
                       cacheSet := cacheSet d' - {key}\<rparr>))
      else
        (None, d\<lparr>refCounter := (refCounter d)(key \<mapsto> refcount d key + 1),
                  cacheSet := cacheSet d - {key}\<rparr>))"

text \<open>
  Modelled from the spec: \<open>RefCounter.Decr\<close> (section 4.E). It decrements the count; a count
  that reaches 0 removes the entry, and the key is not added to the cache set. The spec
  does not say what happens to a key without an entry; nothing is changed here.
\<close>

definition Decr :: "string \<Rightarrow> dagPoolService \<Rightarrow> error option \<times> dagPoolService" where
  "Decr key d =
     (if fails d RefDecr key then (Some ErrInternal, d)
      else if refcount d key \<le> 1 then (None, d\<lparr>refCounter := (refCounter d)(key := None)\<rparr>)
      else (None, d\<lparr>refCounter := (refCounter d)(key \<mapsto> refcount d key - 1)\<rparr>))"

text \<open>Modelled from the spec: \<open>InterruptGC\<close> signals the collector to abort its cycle (section 4.H).\<close>

definition InterruptGC :: "dagPoolService \<Rightarrow> dagPoolService" where
  "InterruptGC d = d\<lparr>gcInterrupted := True\<rparr>"

text \<open>
  Modelled from the spec: \<open>putBlock\<close>, \<open>readBlock\<close> and \<open>readBlockSize\<close> are not in the
  sources. Spec section 4.G: they route the key to its slot and call \<open>Put\<close>, \<open>Get\<close> and
  \<open>GetSize\<close> of the DagNode that owns it. Each request is recorded in \<open>ioLog\<close>.
\<close>

definition putBlock :: "Block \<Rightarrow> dagPoolService \<Rightarrow> error option \<times> dagPoolService" where
  "putBlock block d =
     (let d' = d\<lparr>ioLog := ioLog d @ [IoPut (Cid block)]\<rparr>
      in if fails d PutBlock (Cid block) then (Some ErrInternal, d')
         else (None, d'\<lparr>blockStore := (blockStore d')(Cid block \<mapsto> RawData block)\<rparr>))"

definition readBlock :: "string \<Rightarrow> dagPoolService \<Rightarrow> (error + Block) \<times> dagPoolService" where
  "readBlock c d =
     (let d' = d\<lparr>ioLog := ioLog d @ [IoGet c]\<rparr>
      in if fails d ReadBlock c then (Inl ErrInternal, d')
         else (case blockStore d c of
                 None \<Rightarrow> (Inl (ErrNotFound c), d')
               | Some data \<Rightarrow> (Inr \<lparr>Cid = c, RawData = data\<rparr>, d')))"

definition readBlockSize :: "string \<Rightarrow> dagPoolService \<Rightarrow> (error + int) \<times> dagPoolService" where
  "readBlockSize c d =
     (let d' = d\<lparr>ioLog := ioLog d @ [IoGetSize c]\<rparr>
      in if fails d ReadBlockSize c then (Inl ErrInternal, d')
         else (case blockStore d c of
                 None \<Rightarrow> (Inl (ErrNotFound c), d')
               | Some data \<Rightarrow> (Inr (int (length data)), d')))"

subsection \<open>The public operations (mulNode.go, package poolservice)\<close>

text \<open>\<open>dagPoolService.Has\<close>: is pinned? else is cached?\<close>

definition Has :: "dagPoolService \<Rightarrow> string \<Rightarrow> error + bool" where
  "Has d key =
     (case RefCounter_Has d key of
        Inl err \<Rightarrow> Inl err
      | Inr True \<Rightarrow> Inr True
      | Inr False \<Rightarrow> CacheSet_Has d key)"

text \<open>
  \<open>dagPoolService.Add\<close>. In \<open>has, _ := d.Has(key)\<close> the error is dropped and \<open>has\<close> is
  false when \<open>Has\<close> failed.
\<close>

definition Add ::
  "Block \<Rightarrow> string \<Rightarrow> string \<Rightarrow> bool \<Rightarrow> dagPoolService \<Rightarrow> error option \<times> dagPoolService" where
  "Add block user password pin d =
     (if \<not> CheckUserPolicy (iam d) user password WriteOnly then (Some AccessDenied, d)
      else
        let key = Cid block;
            addBlock = putBlock block
        in if pin then IncrOrCreate key addBlock (InterruptGC d)
           else
             let has = (case Has d key of Inl _ \<Rightarrow> False | Inr b \<Rightarrow> b)
             in if \<not> has then
                  (case addBlock d of
                     (Some err, d') \<Rightarrow> (Some err, d')
                   | (None, d') \<Rightarrow> CacheSet_Add key d')
                else (None, d))"

text \<open>\<open>dagPoolService.Get\<close>.\<close>

definition Get ::
  "string \<Rightarrow> string \<Rightarrow> string \<Rightarrow> dagPoolService \<Rightarrow> (error + Block) \<times> dagPoolService" where
  "Get c user password d =
     (if \<not> CheckUserPolicy (iam d) user password ReadOnly then (Inl AccessDenied, d)
      else
        (case Has d c of
           Inl err \<Rightarrow> (Inl err, d)
         | Inr False \<Rightarrow> (Inl (ErrNotFound c), d)
         | Inr True \<Rightarrow> readBlock c d))"

text \<open>\<open>dagPoolService.Remove\<close>.\<close>

definition Remove ::
  "string \<Rightarrow> string \<Rightarrow> string \<Rightarrow> bool \<Rightarrow> dagPoolService \<Rightarrow> error option \<times> dagPoolService" where
  "Remove c user password unpin d =
     (if \<not> CheckUserPolicy (iam d) user password WriteOnly then (Some AccessDenied, d)
      else if unpin then Decr c d
      else (None, d))"

text \<open>\<open>dagPoolService.GetSize\<close>; the size is 0 beside an error.\<close>

definition GetSize ::
  "string \<Rightarrow> string \<Rightarrow> string \<Rightarrow> dagPoolService \<Rightarrow> (error + int) \<times> dagPoolService" where
  "GetSize c user password d =
     (if \<not> CheckUserPolicy (iam d) user password ReadOnly then (Inl AccessDenied, d)
      else
        (case Has d c of
           Inl err \<Rightarrow> (Inl err, d)
         | Inr False \<Rightarrow> (Inl (ErrNotFound c), d)
         | Inr True \<Rightarrow> readBlockSize c d))"

text \<open>\<open>dagPoolService.AddUser\<close>.\<close>

definition AddUser ::
  "DagPoolUser \<Rightarrow> string \<Rightarrow> string \<Rightarrow> dagPoolService \<Rightarrow> error option \<times> dagPoolService" where
  "AddUser newUser user password d =
     (if \<not> CheckAdmin (iam d) user password then (Some AccessDenied, d)
      else if IsAdmin (iam d) (Username newUser) then (Some (Xerror ''the user already exists''), d)
      else
        (case iam_QueryUser (iam d) (Username newUser) of
           Inr _ \<Rightarrow> (Some (Xerror ''the user already exists''), d)
         | Inl _ \<Rightarrow>
             (case iam_AddUser (iam d) newUser of (r, sys) \<Rightarrow> (r, d\<lparr>iam := sys\<rparr>))))"

text \<open>\<open>dagPoolService.RemoveUser\<close>.\<close>

definition RemoveUser ::
  "string \<Rightarrow> string \<Rightarrow> string \<Rightarrow> dagPoolService \<Rightarrow> error option \<times> dagPoolService" where
  "RemoveUser rmUser user password d =
     (if \<not> CheckAdmin (iam d) user password then (Some AccessDenied, d)
      else if IsAdmin (iam d) rmUser then (Some (Xerror ''refuse to remove the admin user''), d)
      else (case iam_RemoveUser (iam d) rmUser of (r, sys) \<Rightarrow> (r, d\<lparr>iam := sys\<rparr>)))"

text \<open>\<open>dagPoolService.QueryUser\<close>: a user who is not the admin may only query its own record.\<close>

definition QueryUser ::
  "string \<Rightarrow> string \<Rightarrow> string \<Rightarrow> dagPoolService \<Rightarrow> error + DagPoolUser" where
  "QueryUser qUser user password d =
     (if \<not> CheckUser (iam d) user password then Inl AccessDenied
      else if IsAdmin (iam d) user then iam_QueryUser (iam d) qUser
      else if qUser \<noteq> user then Inl AccessDenied
      else iam_QueryUser (iam d) qUser)"

text \<open>
  \<open>dagPoolService.UpdateUser\<close>: an empty password, an empty policy and a zero capacity
  leave the stored field as it is.
\<close>

definition UpdateUser ::
  "DagPoolUser \<Rightarrow> string \<Rightarrow> string \<Rightarrow> dagPoolService \<Rightarrow> error option \<times> dagPoolService" where
  "UpdateUser uUser user password d =
     (if \<not> CheckAdmin (iam d) user password then (Some AccessDenied, d)
      else if IsAdmin (iam d) (Username uUser) then (Some (Xerror ''refuse to update the admin user''), d)
      else
        (case iam_QueryUser (iam d) (Username uUser) of
           Inl _ \<Rightarrow> (Some (Xerror ''not found the user''), d)
         | Inr u \<Rightarrow>
             let u1 = (if Password uUser \<noteq> [] then u\<lparr>Password := Password uUser\<rparr> else u);
                 u2 = (if Policy uUser \<noteq> [] then u1\<lparr>Policy := Policy uUser\<rparr> else u1);
                 u3 = (if Capacity uUser \<noteq> 0 then u2\<lparr>Capacity := Capacity uUser\<rparr> else u2)
             in (case iam_UpdateUser (iam d) u3 of (r, sys) \<Rightarrow> (r, d\<lparr>iam := sys\<rparr>))))"


section \<open>Package node: the DagNode over casks\<close>

subsection \<open>hash/crc32, crypto/sha256 and the \<open>%x\<close> verb of fmt\<close>

text \<open>\<open>[]byte(s)\<close>: a Go string is its bytes.\<close>

definition bytes_of :: "string \<Rightarrow> bytes" where
  "bytes_of s = map (\<lambda>c. of_char c) s"

text \<open>\<open>crc32.ChecksumIEEE\<close>: the reflected CRC-32 with polynomial \<open>0xEDB88320\<close>.\<close>

fun crc_bits :: "nat \<Rightarrow> 32 word \<Rightarrow> 32 word" where
  "crc_bits 0 c = c"
| "crc_bits (Suc n) c =
     crc_bits n (if bit c 0 then drop_bit 1 c XOR 0xEDB88320 else drop_bit 1 c)"

definition crc_update :: "32 word \<Rightarrow> byte \<Rightarrow> 32 word" where
  "crc_update c b = crc_bits 8 (c XOR ucast b)"

definition ChecksumIEEE :: "bytes \<Rightarrow> 32 word" where
  "ChecksumIEEE data = NOT (foldl crc_update (NOT 0) data)"

text \<open>\<open>sha256.Sum256\<close> (FIPS 180-4).\<close>

definition sha256_K :: "32 word list" where
  "sha256_K =
    [0x428A2F98, 0x71374491, 0xB5C0FBCF, 0xE9B5DBA5, 0x3956C25B, 0x59F111F1, 0x923F82A4, 0xAB1C5ED5,
     0xD807AA98, 0x12835B01, 0x243185BE, 0x550C7DC3, 0x72BE5D74, 0x80DEB1FE, 0x9BDC06A7, 0xC19BF174,
     0xE49B69C1, 0xEFBE4786, 0x0FC19DC6, 0x240CA1CC, 0x2DE92C6F, 0x4A7484AA, 0x5CB0A9DC, 0x76F988DA,
     0x983E5152, 0xA831C66D, 0xB00327C8, 0xBF597FC7, 0xC6E00BF3, 0xD5A79147, 0x06CA6351, 0x14292967,
     0x27B70A85, 0x2E1B2138, 0x4D2C6DFC, 0x53380D13, 0x650A7354, 0x766A0ABB, 0x81C2C92E, 0x92722C85,
     0xA2BFE8A1, 0xA81A664B, 0xC24B8B70, 0xC76C51A3, 0xD192E819, 0xD6990624, 0xF40E3585, 0x106AA070,
     0x19A4C116, 0x1E376C08, 0x2748774C, 0x34B0BCB5, 0x391C0CB3, 0x4ED8AA4A, 0x5B9CCA4F, 0x682E6FF3,
     0x748F82EE, 0x78A5636F, 0x84C87814, 0x8CC70208, 0x90BEFFFA, 0xA4506CEB, 0xBEF9A3F7, 0xC67178F2]"

definition sha256_H0 :: "32 word list" where
  "sha256_H0 =
    [0x6A09E667, 0xBB67AE85, 0x3C6EF372, 0xA54FF53A, 0x510E527F, 0x9B05688C, 0x1F83D9AB, 0x5BE0CD19]"

definition rotr :: "nat \<Rightarrow> 32 word \<Rightarrow> 32 word" where
  "rotr n x = drop_bit n x OR push_bit (32 - n) x"

definition be32 :: "bytes \<Rightarrow> 32 word" where
  "be32 bs = foldl (\<lambda>w b. push_bit 8 w OR ucast b) 0 bs"

definition be_bytes32 :: "32 word \<Rightarrow> bytes" where
  "be_bytes32 w = [ucast (drop_bit 24 w), ucast (drop_bit 16 w), ucast (drop_bit 8 w), ucast w]"

definition be_bytes64 :: "64 word \<Rightarrow> bytes" where
  "be_bytes64 w = be_bytes32 (ucast (drop_bit 32 w)) @ be_bytes32 (ucast w)"

definition sha256_pad :: "bytes \<Rightarrow> bytes" where
  "sha256_pad msg =
     msg @ [0x80] @ replicate ((119 - length msg mod 64) mod 64) 0
       @ be_bytes64 (8 * of_nat (length msg))"

text \<open>\<open>chunks n sz xs\<close>: the first \<open>n\<close> consecutive pieces of \<open>sz\<close> elements of \<open>xs\<close>.\<close>

fun chunks :: "nat \<Rightarrow> nat \<Rightarrow> 'a list \<Rightarrow> 'a list list" where
  "chunks 0 sz xs = []"
| "chunks (Suc n) sz xs = take sz xs # chunks n sz (drop sz xs)"

fun schedule :: "nat \<Rightarrow> 32 word list \<Rightarrow> 32 word list" where
  "schedule 0 w = w"
| "schedule (Suc n) w =
     (let t = length w;
          w15 = w ! (t - 15);
          w2 = w ! (t - 2);
          s0 = rotr 7 w15 XOR rotr 18 w15 XOR drop_bit 3 w15;
          s1 = rotr 17 w2 XOR rotr 19 w2 XOR drop_bit 10 w2
      in schedule n (w @ [w ! (t - 16) + s0 + w ! (t - 7) + s1]))"

type_synonym sha_state =
  "32 word \<times> 32 word \<times> 32 word \<times> 32 word \<times> 32 word \<times> 32 word \<times> 32 word \<times> 32 word"

fun sha256_round :: "sha_state \<Rightarrow> 32 word \<times> 32 word \<Rightarrow> sha_state" where
  "sha256_round (a, b, c, d, e, f, g, h) (k, w) =
     (let S1 = rotr 6 e XOR rotr 11 e XOR rotr 25 e;
          ch = (e AND f) XOR (NOT e AND g);
          t1 = h + S1 + ch + k + w;
          S0 = rotr 2 a XOR rotr 13 a XOR rotr 22 a;
          maj = (a AND b) XOR (a AND c) XOR (b AND c);
          t2 = S0 + maj
      in (t1 + t2, a, b, c, d + t1, e, f, g))"

fun sha256_block :: "32 word list \<Rightarrow> bytes \<Rightarrow> 32 word list" where
  "sha256_block hs blk =
     (case hs of
        [h0, h1, h2, h3, h4, h5, h6, h7] \<Rightarrow>
          (case foldl sha256_round (h0, h1, h2, h3, h4, h5, h6, h7)
                  (zip sha256_K (schedule 48 (map be32 (chunks 16 4 blk)))) of
             (a, b, c, d, e, f, g, h) \<Rightarrow>
               [h0 + a, h1 + b, h2 + c, h3 + d, h4 + e, h5 + f, h6 + g, h7 + h])
      | _ \<Rightarrow> hs)"

definition Sum256 :: "bytes \<Rightarrow> bytes" where
  "Sum256 msg =
     (let p = sha256_pad msg
      in concat (map be_bytes32 (foldl sha256_block sha256_H0 (chunks (length p div 64) 64 p))))"

text \<open>\<open>fmt.Sprintf("%x", b)\<close> on a byte array: two lowercase hexadecimal digits a byte.\<close>

definition hexdigit :: "nat \<Rightarrow> char" where
  "hexdigit n = ''0123456789abcdef'' ! (n mod 16)"

definition hex :: "bytes \<Rightarrow> string" where
  "hex bs = concat (map (\<lambda>b. [hexdigit (unat b div 16), hexdigit (unat b mod 16)]) bs)"

text \<open>\<open>sha256String\<close>.\<close>

definition sha256String :: "string \<Rightarrow> string" where
  "sha256String s = hex (Sum256 (bytes_of s))"

subsection \<open>External libraries\<close>

text \<open>
  The parts of the libraries the DagNode is linked with that are taken as parameters.
  \<open>rs_gen k m j col\<close> is byte \<open>j\<close> of the parity column the Reed-Solomon generator gives
  for a column \<open>col\<close> of \<open>k\<close> data bytes, and \<open>rs_reconstruct k m shards\<close> rebuilds the
  missing (empty) data shards from the present ones: which generator is an implementation
  detail (spec section 4.B). \<open>hashCheck data c\<close> is the check of \<open>blocks.NewBlockWithCid\<close>,
  made only when \<open>u.Debug\<close> is set: \<open>None\<close> when it is not made or when the hash of the
  data under the prefix of \<open>c\<close> is \<open>c\<close>. \<open>appendCap n\<close> is the capacity the run time
  gives the slice when \<open>append\<close> copies \<open>n\<close> bytes into a new one (the size class of
  the allocator).
\<close>

record extern =
  rs_gen :: "nat \<Rightarrow> nat \<Rightarrow> nat \<Rightarrow> bytes \<Rightarrow> byte"
  rs_reconstruct :: "nat \<Rightarrow> nat \<Rightarrow> bytes list \<Rightarrow> bytes list"
  hashCheck :: "bytes \<Rightarrow> string \<Rightarrow> error option"
  appendCap :: "nat \<Rightarrow> nat"

definition NewBlockWithCid :: "extern \<Rightarrow> bytes \<Rightarrow> string \<Rightarrow> error + Block" where
  "NewBlockWithCid x data c =
     (case hashCheck x data c of
        Some err \<Rightarrow> Inl err
      | None \<Rightarrow> Inr \<lparr>Cid = c, RawData = data\<rparr>)"

subsection \<open>Erasure codec\<close>

record Erasure =
  encDataBlocks :: nat
  encParityBlocks :: nat
  blockSize :: int

text \<open>
  Modelled from the spec: \<open>NewErasure\<close> is not in the sources. Spec section 4.B: construct
  with \<open>(k, m, block_size)\<close>; section 3: \<open>k \<ge> 1\<close> and \<open>m \<ge> 0\<close>.
\<close>

definition NewErasure :: "int \<Rightarrow> int \<Rightarrow> int \<Rightarrow> error + Erasure" where
  "NewErasure k m sz =
     (if k < 1 \<or> m < 0 then Inl ErrInvShardNum
      else Inr \<lparr>encDataBlocks = nat k, encParityBlocks = nat m, blockSize = sz\<rparr>)"

definition shardLen :: "nat \<Rightarrow> nat \<Rightarrow> nat" where
  "shardLen k n = (n + k - 1) div k"

definition parityShards :: "extern \<Rightarrow> nat \<Rightarrow> nat \<Rightarrow> nat \<Rightarrow> bytes list \<Rightarrow> bytes list" where
  "parityShards x k m len ds =
     map (\<lambda>j. map (\<lambda>b. rs_gen x k m j (map (\<lambda>s. s ! b) ds)) [0..<len]) [0..<m]"

text \<open>
  Modelled from the spec: \<open>EncodeData\<close> (section 4.B) zero-pads the data to a multiple of
  \<open>k\<close>, splits it into \<open>k\<close> equal data shards and computes \<open>m\<close> parity shards; each shard
  has length \<open>ceil(size / k)\<close>.
\<close>

definition EncodeData :: "extern \<Rightarrow> Erasure \<Rightarrow> bytes \<Rightarrow> error + bytes list" where
  "EncodeData x enc data =
     (let k = encDataBlocks enc;
          len = shardLen k (length data);
          padded = data @ replicate (k * len - length data) 0;
          ds = chunks k len padded
      in Inr (ds @ parityShards x k (encParityBlocks enc) len ds))"

text \<open>Modelled from the spec: \<open>Verify\<close> checks parity consistency (section 4.B).\<close>

definition Verify :: "extern \<Rightarrow> Erasure \<Rightarrow> bytes list \<Rightarrow> error + bool" where
  "Verify x enc shards =
     (let k = encDataBlocks enc;
          ds = take k shards
      in Inr (drop k shards =
              parityShards x k (encParityBlocks enc) (case ds of [] \<Rightarrow> 0 | s # _ \<Rightarrow> length s) ds))"

text \<open>
  Modelled from the spec: \<open>DecodeDataBlocks\<close> (section 4.B, \<open>Decode\<close>) works in place: given
  at least \<open>k\<close> present shards, holes being the empty ones, it reconstructs the data
  shards. With no hole, or with fewer than \<open>k\<close> present shards, the shards stay as they
  are. Its error is not looked at by the caller.
\<close>

definition DecodeDataBlocks :: "extern \<Rightarrow> Erasure \<Rightarrow> bytes list \<Rightarrow> bytes list" where
  "DecodeDataBlocks x enc shards =
     (if list_all (\<lambda>s. s \<noteq> []) shards then shards
      else if length (filter (\<lambda>s. s \<noteq> []) shards) < encDataBlocks enc then shards
      else rs_reconstruct x (encDataBlocks enc) (encParityBlocks enc) shards)"

subsection \<open>Casks and slice nodes\<close>

text \<open>
  Modelled from the spec: \<open>Cask\<close> is not in the sources. Spec sections 3 and 4.A: an
  append-only value log with an index from the key to the stored value; \<open>Put\<close> on a full
  disk returns NoSpace, \<open>Read\<close> and \<open>Size\<close> of a missing key return NotFound, a corrupted
  record returns Corrupt, \<open>Delete\<close> removes the index entry. The flag \<open>fl\<close> is the
  environment: the disk is full, or the record is corrupted.
\<close>

record Cask =
  hintMap :: "string \<rightharpoonup> bytes"

definition NewCask :: Cask where
  "NewCask = \<lparr>hintMap = Map.empty\<rparr>"

definition Cask_Put :: "bool \<Rightarrow> string \<Rightarrow> bytes \<Rightarrow> Cask \<Rightarrow> error option \<times> Cask" where
  "Cask_Put fl key v c =
     (if fl then (Some ErrNoSpace, c) else (None, c\<lparr>hintMap := (hintMap c)(key \<mapsto> v)\<rparr>))"

definition Cask_Read :: "bool \<Rightarrow> string \<Rightarrow> Cask \<Rightarrow> error + bytes" where
  "Cask_Read fl key c =
     (case hintMap c key of
        None \<Rightarrow> Inl KvErrNotFound
      | Some v \<Rightarrow> if fl then Inl ErrCorrupt else Inr v)"

definition Cask_Size :: "bool \<Rightarrow> string \<Rightarrow> Cask \<Rightarrow> error + int" where
  "Cask_Size fl key c =
     (case hintMap c key of
        None \<Rightarrow> Inl KvErrNotFound
      | Some v \<Rightarrow> if fl then Inl ErrCorrupt else Inr (int (length v)))"

definition Cask_Delete :: "bool \<Rightarrow> string \<Rightarrow> Cask \<Rightarrow> error option \<times> Cask" where
  "Cask_Delete fl key c =
     (if fl then (Some ErrNoSpace, c) else (None, c\<lparr>hintMap := (hintMap c)(key := None)\<rparr>))"

text \<open>
  \<open>SliceNode\<close>: \<open>CaskNum\<close> of its configuration, its \<open>caskMap\<close>, and the \<open>ids\<close> that the
  goroutine of \<open>handleCreateCask\<close> has created.
\<close>

record SliceNode =
  CaskNum :: "32 word"
  caskMap :: "32 word \<rightharpoonup> Cask"
  ids :: "32 word list"

text \<open>\<open>hasId\<close>.\<close>

fun hasId :: "32 word list \<Rightarrow> 32 word \<Rightarrow> bool" where
  "hasId [] i = False"
| "hasId (item # rest) i = (if item = i then True else hasId rest i)"

text \<open>
  One request served by \<open>handleCreateCask\<close>; \<open>fl\<close> tells that \<open>os.OpenFile\<close> fails on the
  value log or the hint log.
\<close>

definition createCask :: "bool \<Rightarrow> 32 word \<Rightarrow> SliceNode \<Rightarrow> error option \<times> SliceNode" where
  "createCask fl i node =
     (if hasId (ids node) i then (None, node)
      else if fl then (Some ErrCreateCask, node)
      else (None, node\<lparr>caskMap := (caskMap node)(i \<mapsto> NewCask), ids := ids node @ [i]\<rparr>))"

subsection \<open>The DagNode (package node)\<close>

text \<open>The calls of a DagNode that can fail in the environment; the number is the member's index.\<close>

datatype dncall = DbPut | DbGet | CreateCask nat | CaskPut nat | CaskRead nat | CaskSize nat | CaskDelete nat

text \<open>
  \<open>DagNode\<close>: its slice nodes, the key-value store \<open>db\<close> of block sizes, and the erasure
  parameters. \<open>dnFails\<close> is the environment.
\<close>

record DagNode =
  nodes :: "SliceNode list"
  db :: "string \<rightharpoonup> int"
  dataBlocks :: int
  parityBlocks :: int
  dnFails :: "dncall \<Rightarrow> bool"

text \<open>Modelled from the spec: \<open>uleveldb\<close> \<open>Put\<close> and \<open>Get\<close> of one key (section 4.I).\<close>

definition db_Put :: "DagNode \<Rightarrow> string \<Rightarrow> int \<Rightarrow> error option \<times> DagNode" where
  "db_Put d key v =
     (if dnFails d DbPut then (Some ErrInternal, d)
      else (None, d\<lparr>db := (db d)(key \<mapsto> v)\<rparr>))"

definition db_Get :: "DagNode \<Rightarrow> string \<Rightarrow> error + int" where
  "db_Get d key =
     (if dnFails d DbGet then Inl ErrInternal
      else (case db d key of None \<Rightarrow> Inl KvErrNotFound | Some v \<Rightarrow> Inr v))"

text \<open>
  \<open>DagNode.fileID\<close>: \<open>d.nodes[0]\<close> panics without a member, and \<open>%\<close> panics when
  \<open>CaskNum\<close> is 0.
\<close>

definition fileID :: "DagNode \<Rightarrow> string \<Rightarrow> error + 32 word" where
  "fileID d key =
     (let crc = ChecksumIEEE (bytes_of key)
      in (case nodes d of
            [] \<Rightarrow> Inl (Panic ''index out of range'')
          | node # _ \<Rightarrow>
              if CaskNum node = 0 then Inl (Panic ''integer divide by zero'')
              else Inr (crc mod CaskNum node)))"

text \<open>
  The loop of \<open>DagNode.Put\<close> from member \<open>i\<close> on. A member without the cask asks for it;
  an error of the creation returns at once. The operand \<open>shards[i]\<close> panics beyond the
  shards, before the call on a cask that is still missing does. An error of \<open>cask.Put\<close>
  breaks the loop: the members before keep what they wrote.
\<close>

fun put_loop ::
  "(dncall \<Rightarrow> bool) \<Rightarrow> string \<Rightarrow> 32 word \<Rightarrow> bytes list \<Rightarrow> nat \<Rightarrow> SliceNode list
     \<Rightarrow> error option \<times> SliceNode list" where
  "put_loop fl keyCode fid shards i [] = (None, [])"
| "put_loop fl keyCode fid shards i (node # rest) =
     (case (case caskMap node fid of
              Some _ \<Rightarrow> (None, node)
            | None \<Rightarrow> createCask (fl (CreateCask i)) fid node) of
        (Some err, node1) \<Rightarrow> (Some err, node1 # rest)
      | (None, node1) \<Rightarrow>
          if length shards \<le> i then (Some (Panic ''index out of range''), node1 # rest)
          else
            (case caskMap node1 fid of
               None \<Rightarrow> (Some (Panic ''nil pointer dereference''), node1 # rest)
             | Some cask \<Rightarrow>
                 (case Cask_Put (fl (CaskPut i)) keyCode (shards ! i) cask of
                    (Some err, cask1) \<Rightarrow>
                      (Some err, node1\<lparr>caskMap := (caskMap node1)(fid \<mapsto> cask1)\<rparr> # rest)
                  | (None, cask1) \<Rightarrow>
                      (case put_loop fl keyCode fid shards (Suc i) rest of
                         (r, rest1) \<Rightarrow>
                           (r, node1\<lparr>caskMap := (caskMap node1)(fid \<mapsto> cask1)\<rparr> # rest1)))))"

text \<open>\<open>DagNode.Put\<close>. The result of \<open>Verify\<close> is only logged.\<close>

definition DagNode_Put :: "extern \<Rightarrow> DagNode \<Rightarrow> Block \<Rightarrow> error option \<times> DagNode" where
  "DagNode_Put x d block =
     (case db_Put d (Cid block) (int (length (RawData block))) of
        (Some err, d1) \<Rightarrow> (Some err, d1)
      | (None, d1) \<Rightarrow>
          (let keyCode = sha256String (Cid block)
           in (case NewErasure (dataBlocks d1) (parityBlocks d1) (int (length (RawData block))) of
                 Inl err \<Rightarrow> (Some err, d1)
               | Inr enc \<Rightarrow>
                   (case EncodeData x enc (RawData block) of
                      Inl err \<Rightarrow> (Some err, d1)
                    | Inr shards \<Rightarrow>
                        (case Verify x enc shards of
                           Inl err \<Rightarrow> (Some err, d1)
                         | Inr ok \<Rightarrow>
                             (case fileID d1 keyCode of
                                Inl err \<Rightarrow> (Some err, d1)
                              | Inr fid \<Rightarrow>
                                  (case put_loop (dnFails d1) keyCode fid shards 0 (nodes d1) of
                                     (r, ns) \<Rightarrow> (r, d1\<lparr>nodes := ns\<rparr>))))))))"

text \<open>The loop of \<open>DagNode.Get\<close>: every member must hold the cask and give its shard.\<close>

fun read_loop ::
  "(dncall \<Rightarrow> bool) \<Rightarrow> string \<Rightarrow> 32 word \<Rightarrow> nat \<Rightarrow> SliceNode list \<Rightarrow> error + bytes list" where
  "read_loop fl keyCode fid i [] = Inr []"
| "read_loop fl keyCode fid i (node # rest) =
     (case caskMap node fid of
        None \<Rightarrow> Inl KvErrNotFound
      | Some cask \<Rightarrow>
          (case Cask_Read (fl (CaskRead i)) keyCode cask of
             Inl err \<Rightarrow> Inl err
           | Inr bs \<Rightarrow>
               (case read_loop fl keyCode fid (Suc i) rest of
                  Inl err \<Rightarrow> Inl err
                | Inr merged \<Rightarrow> Inr (bs # merged))))"

text \<open>
  \<open>bytes.Join\<close> with the empty separator: the joined bytes and the capacity of the slice
  that holds them. Without an element the slice is empty with no capacity; one element
  is copied by \<open>append\<close>, which may leave capacity beyond the length; two or more are
  copied into a slice made for exactly their length.
\<close>

definition Join :: "extern \<Rightarrow> bytes list \<Rightarrow> bytes \<times> nat" where
  "Join x s =
     (case s of
        [] \<Rightarrow> ([], 0)
      | [v] \<Rightarrow> (v, max (length v) (appendCap x (length v)))
      | _ \<Rightarrow> (concat s, length (concat s)))"

text \<open>
  \<open>DagNode.Get\<close>. The size comes from \<open>db\<close>. The error of \<open>NewErasure\<close> is returned after
  the join, and the decoding on the codec it left unbuilt has no effect that is seen.
  \<open>data[:size]\<close> panics when the size is negative or beyond the capacity of the joined
  shards; within the capacity it reads zero bytes after the joined ones.
\<close>

definition DagNode_Get :: "extern \<Rightarrow> DagNode \<Rightarrow> string \<Rightarrow> error + Block" where
  "DagNode_Get x d c =
     (let keyCode = sha256String c
      in (case db_Get d c of
           Inl err \<Rightarrow> Inl err
         | Inr sz \<Rightarrow>
             (case fileID d keyCode of
                Inl err \<Rightarrow> Inl err
              | Inr fid \<Rightarrow>
                  (case read_loop (dnFails d) keyCode fid 0 (nodes d) of
                     Inl err \<Rightarrow> Inl err
                   | Inr merged \<Rightarrow>
                       (case NewErasure (dataBlocks d) (parityBlocks d) sz of
                          Inl err \<Rightarrow> Inl err
                        | Inr enc \<Rightarrow>
                            (case Join x (DecodeDataBlocks x enc merged) of
                               (data, cap) \<Rightarrow>
                                 if sz < 0 \<or> int cap < sz
                                 then Inl (Panic ''slice bounds out of range'')
                                 else
                                   (case NewBlockWithCid x
                                           (take (nat sz) (data @ replicate (cap - length data) 0)) c of
                                      Inl ErrWrongHash \<Rightarrow> Inl ErrHashMismatch
                                    | Inl err \<Rightarrow> Inl err
                                    | Inr b \<Rightarrow> Inr b)))))))"

text \<open>The loop of \<open>DagNode.GetSize\<close>: the sizes the members report are added up.\<close>

fun size_loop ::
  "(dncall \<Rightarrow> bool) \<Rightarrow> string \<Rightarrow> 32 word \<Rightarrow> nat \<Rightarrow> int \<Rightarrow> SliceNode list \<Rightarrow> error + int" where
  "size_loop fl keyCode fid i count [] = Inr count"
| "size_loop fl keyCode fid i count (node # rest) =
     (case caskMap node fid of
        None \<Rightarrow> Inl KvErrNotFound
      | Some cask \<Rightarrow>
          (case Cask_Size (fl (CaskSize i)) keyCode cask of
             Inl err \<Rightarrow> Inl err
           | Inr sz \<Rightarrow> size_loop fl keyCode fid (Suc i) (count + sz) rest))"

text \<open>\<open>DagNode.GetSize\<close>; the number beside an error (-1 or 0) is left out.\<close>

definition DagNode_GetSize :: "DagNode \<Rightarrow> string \<Rightarrow> error + int" where
  "DagNode_GetSize d c =
     (let keyCode = sha256String c
      in (case fileID d keyCode of
            Inl err \<Rightarrow> Inl err
          | Inr fid \<Rightarrow> size_loop (dnFails d) keyCode fid 0 0 (nodes d)))"

text \<open>\<open>DagNode.Has\<close>.\<close>

definition DagNode_Has :: "DagNode \<Rightarrow> string \<Rightarrow> error + bool" where
  "DagNode_Has d c =
     (case DagNode_GetSize d c of
        Inl err \<Rightarrow> if err = KvErrNotFound then Inr False else Inl err
      | Inr _ \<Rightarrow> Inr True)"

text \<open>The loop of \<open>DagNode.DeleteBlock\<close>: a member without the cask ends it with success.\<close>

fun delete_loop ::
  "(dncall \<Rightarrow> bool) \<Rightarrow> string \<Rightarrow> 32 word \<Rightarrow> nat \<Rightarrow> SliceNode list
     \<Rightarrow> error option \<times> SliceNode list" where
  "delete_loop fl keyCode fid i [] = (None, [])"
| "delete_loop fl keyCode fid i (node # rest) =
     (case caskMap node fid of
        None \<Rightarrow> (None, node # rest)
      | Some cask \<Rightarrow>
          (case Cask_Delete (fl (CaskDelete i)) keyCode cask of
             (Some err, cask1) \<Rightarrow> (Some err, node\<lparr>caskMap := (caskMap node)(fid \<mapsto> cask1)\<rparr> # rest)
           | (None, cask1) \<Rightarrow>
               (case delete_loop fl keyCode fid (Suc i) rest of
                  (r, rest1) \<Rightarrow> (r, node\<lparr>caskMap := (caskMap node)(fid \<mapsto> cask1)\<rparr> # rest1))))"

text \<open>\<open>DagNode.DeleteBlock\<close>.\<close>

definition DagNode_DeleteBlock :: "DagNode \<Rightarrow> string \<Rightarrow> error option \<times> DagNode" where
  "DagNode_DeleteBlock d c =
     (let keyCode = sha256String c
      in (case fileID d keyCode of
            Inl err \<Rightarrow> (Some err, d)
          | Inr fid \<Rightarrow>
              (case delete_loop (dnFails d) keyCode fid 0 (nodes d) of
                 (r, ns) \<Rightarrow> (r, d\<lparr>nodes := ns\<rparr>))))"

section \<open>Histories, predicates and sample states used by the theorems\<close>

subsection \<open>User administration histories\<close>

text \<open>
  A user-administration request, with the caller's credentials, and the state after a
  list of them; whether a request succeeded is not looked at.
\<close>

datatype admin_op =
    OpAddUser DagPoolUser string string
  | OpRemoveUser string string string
  | OpUpdateUser DagPoolUser string string

fun admin_step :: "dagPoolService \<Rightarrow> admin_op \<Rightarrow> dagPoolService" where
  "admin_step d (OpAddUser newUser user password) = snd (AddUser newUser user password d)"
| "admin_step d (OpRemoveUser rmUser user password) = snd (RemoveUser rmUser user password d)"
| "admin_step d (OpUpdateUser uUser user password) = snd (UpdateUser uUser user password d)"

definition run_admin :: "dagPoolService \<Rightarrow> admin_op list \<Rightarrow> dagPoolService" where
  "run_admin d ops = foldl admin_step d ops"

text \<open>What makes up the admin user: its name, its password, and the stored record under its name.\<close>

definition admin_record :: "dagPoolService \<Rightarrow> string \<times> string \<times> DagPoolUser option" where
  "admin_record d = (rootUser (iam d), rootPassword (iam d), users (iam d) (rootUser (iam d)))"

text \<open>Every stored user record is kept under its own name, as \<open>AddUser\<close> stores it.\<close>

definition users_keyed :: "dagPoolService \<Rightarrow> bool" where
  "users_keyed d = (\<forall>k u. users (iam d) k = Some u \<longrightarrow> Username u = k)"

subsection \<open>Members and their casks\<close>

text \<open>Member \<open>node\<close> holds the value \<open>v\<close> under \<open>key\<close> in its cask \<open>fid\<close>.\<close>

definition member_holds :: "SliceNode \<Rightarrow> 32 word \<Rightarrow> string \<Rightarrow> bytes \<Rightarrow> bool" where
  "member_holds node fid key v =
     (case caskMap node fid of None \<Rightarrow> False | Some c \<Rightarrow> hintMap c key = Some v)"

text \<open>
  Member \<open>i\<close> can write into cask \<open>fid\<close>: it has the cask, or \<open>handleCreateCask\<close> will
  create it.
\<close>

definition cask_ready :: "(dncall \<Rightarrow> bool) \<Rightarrow> 32 word \<Rightarrow> nat \<Rightarrow> SliceNode \<Rightarrow> bool" where
  "cask_ready fl fid i node =
     (caskMap node fid \<noteq> None \<or> (\<not> hasId (ids node) fid \<and> \<not> fl (CreateCask i)))"

text \<open>
  Member \<open>i\<close> fails in the loop of \<open>Put\<close>: it cannot get the cask, or its \<open>cask.Put\<close>
  fails; and the error that \<open>Put\<close> then returns. A member that lacks the cask although
  its id is recorded gets a nil cask from \<open>handleCreateCask\<close>, and the call on it panics.
\<close>

definition member_fails :: "(dncall \<Rightarrow> bool) \<Rightarrow> 32 word \<Rightarrow> nat \<Rightarrow> SliceNode \<Rightarrow> bool" where
  "member_fails fl fid i node = (\<not> cask_ready fl fid i node \<or> fl (CaskPut i))"

definition member_error :: "(dncall \<Rightarrow> bool) \<Rightarrow> 32 word \<Rightarrow> nat \<Rightarrow> SliceNode \<Rightarrow> error" where
  "member_error fl fid i node =
     (if caskMap node fid = None \<and> hasId (ids node) fid then Panic ''nil pointer dereference''
      else if caskMap node fid = None \<and> fl (CreateCask i) then ErrCreateCask
      else ErrNoSpace)"

text \<open>The value of a hexadecimal digit: its position among the sixteen digits.\<close>

definition hexval :: "char \<Rightarrow> nat" where
  "hexval c = length (takeWhile (\<lambda>d. d \<noteq> c) ''0123456789abcdef'')"

subsection \<open>Sample states\<close>

text \<open>A pool with root user dagpool, a read-write user alice and a read-only user bob.\<close>

definition exUsers :: "string \<rightharpoonup> DagPoolUser" where
  "exUsers =
     [''alice'' \<mapsto> \<lparr>Username = ''alice'', Password = ''pw-a'', Policy = ReadWrite, Capacity = 10\<rparr>,
      ''bob'' \<mapsto> \<lparr>Username = ''bob'', Password = ''pw-b'', Policy = ReadOnly, Capacity = 0\<rparr>]"

definition exIam :: IdentityUserSys where
  "exIam = \<lparr>rootUser = ''dagpool'', rootPassword = ''secret'', users = exUsers,
             iamFails = (\<lambda>_. False)\<rparr>"

definition exPool :: dagPoolService where
  "exPool = \<lparr>iam = exIam, refCounter = [''c1'' \<mapsto> 2], cacheSet = {''c2''},
              blockStore = [''c1'' \<mapsto> [1, 2, 3], ''c2'' \<mapsto> [4]], ioLog = [],
              gcInterrupted = False, fails = (\<lambda>_ _. False)\<rparr>"

definition exOps :: "admin_op list" where
  "exOps =
     [OpAddUser \<lparr>Username = ''dagpool'', Password = ''x'', Policy = ReadWrite, Capacity = 0\<rparr> ''dagpool'' ''secret'',
      OpRemoveUser ''dagpool'' ''dagpool'' ''secret'',
      OpUpdateUser \<lparr>Username = ''dagpool'', Password = ''y'', Policy = [], Capacity = 0\<rparr> ''dagpool'' ''secret'',
      OpRemoveUser ''bob'' ''dagpool'' ''secret'']"

definition exNewUser :: DagPoolUser where
  "exNewUser = \<lparr>Username = ''alice'', Password = ''x'', Policy = ReadWrite, Capacity = 0\<rparr>"

definition exRootUpdate :: DagPoolUser where
  "exRootUpdate = \<lparr>Username = ''dagpool'', Password = ''y'', Policy = [], Capacity = 0\<rparr>"

definition exPinned :: Block where
  "exPinned = \<lparr>Cid = ''c1'', RawData = [1, 2, 3]\<rparr>"

definition exNew :: Block where
  "exNew = \<lparr>Cid = ''c9'', RawData = [7]\<rparr>"

text \<open>
  A DagNode of three members with \<open>(k, m) = (2, 1)\<close>, the block "123456" of the test
  \<open>TestDagNode\<close> under the cid that \<open>blocks.NewBlock\<close> gives it, and the same DagNode
  with the disk of the third member full.
\<close>

definition exExt :: extern where
  "exExt = \<lparr>rs_gen = (\<lambda>k m j col. foldr (XOR) col 0),
             rs_reconstruct = (\<lambda>k m shards. shards),
             hashCheck = (\<lambda>data c. None),
             appendCap = (\<lambda>n. 8 * ((n + 7) div 8))\<rparr>"

definition exNode :: SliceNode where
  "exNode = \<lparr>CaskNum = 256, caskMap = Map.empty, ids = []\<rparr>"

definition exDagNode :: DagNode where
  "exDagNode = \<lparr>nodes = [exNode, exNode, exNode], db = Map.empty, dataBlocks = 2,
                 parityBlocks = 1, dnFails = (\<lambda>c. False)\<rparr>"

definition exDagNodeFull :: DagNode where
  "exDagNodeFull = exDagNode\<lparr>dnFails := (\<lambda>c. c = CaskPut 2)\<rparr>"

definition exBlock :: Block where
  "exBlock = \<lparr>Cid = ''QmXsMQRrggM1pD2axFoscGSrANph6f1nsQm6oFm3AHzECy'', RawData = [0x31, 0x32, 0x33, 0x34, 0x35, 0x36]\<rparr>"

definition exShards :: "bytes list" where
  "exShards = [[0x31, 0x32, 0x33], [0x34, 0x35, 0x36], [0x05, 0x07, 0x05]]"

definition exEnc :: Erasure where
  "exEnc = \<lparr>encDataBlocks = 2, encParityBlocks = 1, blockSize = 6\<rparr>"

text \<open>
  The same DagNode where the second member cannot create a cask, and one whose second
  member is configured with 7 casks while the others have 256.
\<close>

definition exDagNodeNoCask :: DagNode where
  "exDagNodeNoCask = exDagNode\<lparr>dnFails := (\<lambda>c. c = CreateCask 1)\<rparr>"

definition exNode7 :: SliceNode where
  "exNode7 = \<lparr>CaskNum = 7, caskMap = Map.empty, ids = []\<rparr>"

definition exDagNodeMixed :: DagNode where
  "exDagNodeMixed = exDagNode\<lparr>nodes := [exNode, exNode7, exNode]\<rparr>"

section \<open>The DagPool service\<close>

lemma IncrOrCreate_putBlock_gc:
  "gcInterrupted (snd (IncrOrCreate key (putBlock block) d)) = gcInterrupted d"
  by (simp add: IncrOrCreate_def putBlock_def Let_def)

text \<open>
  Claim C1. With valid write credentials, \<open>Add\<close> with \<open>pin\<close> interrupts the GC and then
  is \<open>RefCounter.IncrOrCreate\<close> on the block's cid with the callback that stores the block.
  Without \<open>pin\<close>, a cid that \<open>Has\<close> reports present makes the call a no-op that returns
  success; otherwise the block is sent to storage (one request, recorded in \<open>ioLog\<close>),
  and when that succeeds the cid is added to the cache set. Without \<open>pin\<close> the GC is not
  interrupted.
\<close>

theorem Add_pin_or_cache:
  assumes "CheckUserPolicy (iam d) user password WriteOnly"
  shows "Add block user password True d
           = IncrOrCreate (Cid block) (putBlock block) (InterruptGC d)
         \<and> gcInterrupted (snd (Add block user password True d))
         \<and> (Has d (Cid block) = Inr True \<longrightarrow> Add block user password False d = (None, d))
         \<and> (Has d (Cid block) \<noteq> Inr True \<longrightarrow>
              Add block user password False d
                = (case putBlock block d of
                     (Some err, d') \<Rightarrow> (Some err, d')
                   | (None, d') \<Rightarrow> CacheSet_Add (Cid block) d')
              \<and> ioLog (snd (Add block user password False d)) = ioLog d @ [IoPut (Cid block)]
              \<and> (fst (Add block user password False d) = None \<longrightarrow>
                    Cid block \<in> cacheSet (snd (Add block user password False d))
                    \<and> blockStore (snd (Add block user password False d)) (Cid block)
                        = Some (RawData block)))
         \<and> gcInterrupted (snd (Add block user password False d)) = gcInterrupted d"
proof -
  have pin: "Add block user password True d
               = IncrOrCreate (Cid block) (putBlock block) (InterruptGC d)"
    using assms by (simp add: Add_def)
  have gc: "gcInterrupted (snd (Add block user password True d))"
    unfolding pin by (simp add: IncrOrCreate_putBlock_gc InterruptGC_def)
  have present: "Has d (Cid block) = Inr True \<longrightarrow> Add block user password False d = (None, d)"
    using assms by (simp add: Add_def)
  have absent: "Has d (Cid block) \<noteq> Inr True \<longrightarrow>
              Add block user password False d
                = (case putBlock block d of
                     (Some err, d') \<Rightarrow> (Some err, d')
                   | (None, d') \<Rightarrow> CacheSet_Add (Cid block) d')"
    using assms by (cases "Has d (Cid block)") (auto simp: Add_def)
  have log: "Has d (Cid block) \<noteq> Inr True \<longrightarrow>
      ioLog (snd (Add block user password False d)) = ioLog d @ [IoPut (Cid block)]
      \<and> (fst (Add block user password False d) = None \<longrightarrow>
                    Cid block \<in> cacheSet (snd (Add block user password False d))
                    \<and> blockStore (snd (Add block user password False d)) (Cid block)
                        = Some (RawData block))"
    using absent by (auto simp: putBlock_def CacheSet_Add_def Let_def)
  have gc': "gcInterrupted (snd (Add block user password False d)) = gcInterrupted d"
    using assms by (cases "Has d (Cid block)") (auto simp: Add_def putBlock_def CacheSet_Add_def Let_def)
  from pin gc present absent log gc' show ?thesis by blast
qed

text \<open>C1 on the sample pool: alice adds the pinned block c1 and the new block c9.\<close>

theorem Add_pin_or_cache_witness:
  "CheckUserPolicy (iam exPool) ''alice'' ''pw-a'' WriteOnly
   \<and> Has exPool (Cid exPinned) = Inr True
   \<and> Add exPinned ''alice'' ''pw-a'' False exPool = (None, exPool)
   \<and> Has exPool (Cid exNew) \<noteq> Inr True
   \<and> fst (Add exNew ''alice'' ''pw-a'' False exPool) = None
   \<and> ioLog (snd (Add exNew ''alice'' ''pw-a'' False exPool)) = [IoPut ''c9'']
   \<and> Cid exNew \<in> cacheSet (snd (Add exNew ''alice'' ''pw-a'' False exPool))
   \<and> blockStore (snd (Add exNew ''alice'' ''pw-a'' False exPool)) (Cid exNew) = Some [7]
   \<and> gcInterrupted (snd (Add exNew ''alice'' ''pw-a'' True exPool))
   \<and> refcount (snd (Add exNew ''alice'' ''pw-a'' True exPool)) ''c9'' = 1
   \<and> refcount (snd (Add exPinned ''alice'' ''pw-a'' True exPool)) ''c1'' = 3"
proof -
  have auth: "CheckUserPolicy (iam exPool) ''alice'' ''pw-a'' WriteOnly"
    by (simp add: CheckUserPolicy_def CheckAdmin_def Allow_def exPool_def exIam_def exUsers_def)
  note new = Add_pin_or_cache [OF auth, of exNew]
  note pinned = Add_pin_or_cache [OF auth, of exPinned]
  have h1: "Has exPool (Cid exPinned) = Inr True"
    by (simp add: Has_def RefCounter_Has_def refcount_def exPool_def exPinned_def)
  have h9: "Has exPool (Cid exNew) = Inr False"
    by (simp add: Has_def RefCounter_Has_def CacheSet_Has_def refcount_def exPool_def exNew_def)
  then have h9': "Has exPool (Cid exNew) \<noteq> Inr True"
    by simp
  from pinned h1 have a: "Add exPinned ''alice'' ''pw-a'' False exPool = (None, exPool)"
    by blast
  from new h9' have eq: "Add exNew ''alice'' ''pw-a'' False exPool
      = (case putBlock exNew exPool of
           (Some err, d') \<Rightarrow> (Some err, d')
         | (None, d') \<Rightarrow> CacheSet_Add (Cid exNew) d')"
    by blast
  have ok: "fst (Add exNew ''alice'' ''pw-a'' False exPool) = None"
    unfolding eq by (simp add: putBlock_def CacheSet_Add_def Let_def exPool_def)
  from new h9' ok have b: "ioLog (snd (Add exNew ''alice'' ''pw-a'' False exPool))
        = ioLog exPool @ [IoPut (Cid exNew)]
      \<and> Cid exNew \<in> cacheSet (snd (Add exNew ''alice'' ''pw-a'' False exPool))
      \<and> blockStore (snd (Add exNew ''alice'' ''pw-a'' False exPool)) (Cid exNew)
          = Some (RawData exNew)"
    by blast
  from new have gc: "gcInterrupted (snd (Add exNew ''alice'' ''pw-a'' True exPool))"
    by blast
  from new have "Add exNew ''alice'' ''pw-a'' True exPool
      = IncrOrCreate (Cid exNew) (putBlock exNew) (InterruptGC exPool)"
    by blast
  then have r9: "refcount (snd (Add exNew ''alice'' ''pw-a'' True exPool)) ''c9'' = 1"
    by (simp add: IncrOrCreate_def putBlock_def InterruptGC_def Let_def refcount_def exPool_def
        exNew_def)
  from pinned have "Add exPinned ''alice'' ''pw-a'' True exPool
      = IncrOrCreate (Cid exPinned) (putBlock exPinned) (InterruptGC exPool)"
    by blast
  then have r1: "refcount (snd (Add exPinned ''alice'' ''pw-a'' True exPool)) ''c1'' = 3"
    by (simp add: IncrOrCreate_def putBlock_def InterruptGC_def Let_def refcount_def exPool_def
        exPinned_def)
  have lg: "ioLog exPool @ [IoPut (Cid exNew)] = [IoPut ''c9'']" "RawData exNew = [7]"
    by (simp_all add: exPool_def exNew_def)
  from auth h1 a h9' ok b gc r9 r1 show ?thesis
    by (simp only: lg simp_thms)
qed

text \<open>
  Claim C5. When the two lookups in the key-value store answer, \<open>Has\<close> of a key returns
  true if and only if the reference counter holds the key with a count of at least 1 or
  the key is in the cache set.
\<close>

theorem Has_pinned_or_cached:
  assumes "\<not> fails d RefHas key" and "\<not> fails d CacheHas key"
  shows "Has d key = Inr (1 \<le> refcount d key \<or> key \<in> cacheSet d)"
  using assms by (cases "1 \<le> refcount d key") (simp_all add: Has_def RefCounter_Has_def CacheSet_Has_def)

text \<open>C5 on the sample pool: c1 is pinned, c2 is cached, c3 is neither.\<close>

theorem Has_pinned_or_cached_witness:
  "\<not> fails exPool RefHas ''c2'' \<and> \<not> fails exPool CacheHas ''c2'' \<and> Has exPool ''c2'' = Inr True
   \<and> Has exPool ''c1'' = Inr True \<and> Has exPool ''c3'' = Inr False"
  using Has_pinned_or_cached [of exPool "''c2''"] Has_pinned_or_cached [of exPool "''c1''"]
    Has_pinned_or_cached [of exPool "''c3''"]
  by (simp add: exPool_def refcount_def)

text \<open>
  Claim C6. With valid read credentials, \<open>Get\<close> and \<open>GetSize\<close> of a cid that is neither
  pinned nor in the cache set return NotFound and leave the state as it is: in particular
  \<open>ioLog\<close> is unchanged, no block is read from storage. The two lookups are taken to
  answer.
\<close>

theorem Get_GetSize_NotFound:
  assumes "CheckUserPolicy (iam d) user password ReadOnly"
    and "refcount d c = 0" and "c \<notin> cacheSet d"
    and "\<not> fails d RefHas c" and "\<not> fails d CacheHas c"
  shows "Get c user password d = (Inl (ErrNotFound c), d)
         \<and> GetSize c user password d = (Inl (ErrNotFound c), d)"
  using assms by (simp add: Get_def GetSize_def Has_def RefCounter_Has_def CacheSet_Has_def)

text \<open>C6 on the sample pool: bob reads c3.\<close>

theorem Get_GetSize_NotFound_witness:
  "CheckUserPolicy (iam exPool) ''bob'' ''pw-b'' ReadOnly \<and> refcount exPool ''c3'' = 0
   \<and> ''c3'' \<notin> cacheSet exPool \<and> \<not> fails exPool RefHas ''c3'' \<and> \<not> fails exPool CacheHas ''c3''
   \<and> Get ''c3'' ''bob'' ''pw-b'' exPool = (Inl (ErrNotFound ''c3''), exPool)
   \<and> GetSize ''c3'' ''bob'' ''pw-b'' exPool = (Inl (ErrNotFound ''c3''), exPool)"
  using Get_GetSize_NotFound [of exPool "''bob''" "''pw-b''" "''c3''"]
  by (simp add: exPool_def exIam_def exUsers_def refcount_def CheckUserPolicy_def CheckAdmin_def
      Allow_def ReadOnly_def ReadWrite_def)

text \<open>
  Claim C7. When the check of the caller's credentials and policy fails, \<open>Add\<close> and
  \<open>Remove\<close> (write), \<open>Get\<close> and \<open>GetSize\<close> (read) return AccessDenied and the state
  (reference counts, cache set, stored blocks, requests sent to storage) is unchanged.
\<close>

theorem AccessDenied_no_change:
  "(\<not> CheckUserPolicy (iam d) user password WriteOnly \<longrightarrow>
      Add block user password pin d = (Some AccessDenied, d)
      \<and> Remove c user password unpin d = (Some AccessDenied, d))
   \<and> (\<not> CheckUserPolicy (iam d) user password ReadOnly \<longrightarrow>
      Get c user password d = (Inl AccessDenied, d)
      \<and> GetSize c user password d = (Inl AccessDenied, d))"
  by (simp add: Add_def Remove_def Get_def GetSize_def)

text \<open>C7 on the sample pool: bob with a wrong password.\<close>

theorem AccessDenied_no_change_witness:
  "\<not> CheckUserPolicy (iam exPool) ''bob'' ''wrong'' WriteOnly
   \<and> \<not> CheckUserPolicy (iam exPool) ''bob'' ''wrong'' ReadOnly
   \<and> Add \<lparr>Cid = ''c9'', RawData = [7]\<rparr> ''bob'' ''wrong'' True exPool = (Some AccessDenied, exPool)
   \<and> Remove ''c1'' ''bob'' ''wrong'' True exPool = (Some AccessDenied, exPool)
   \<and> Get ''c1'' ''bob'' ''wrong'' exPool = (Inl AccessDenied, exPool)
   \<and> GetSize ''c1'' ''bob'' ''wrong'' exPool = (Inl AccessDenied, exPool)"
  using AccessDenied_no_change [of exPool "''bob''" "''wrong''" "\<lparr>Cid = ''c9'', RawData = [7]\<rparr>" True "''c1''" True]
  by (simp add: exPool_def exIam_def exUsers_def CheckUserPolicy_def CheckAdmin_def)

subsection \<open>The admin user\<close>

lemma AddUser_admin_record:
  "admin_record (snd (AddUser newUser user password d)) = admin_record d
   \<and> (users_keyed d \<longrightarrow> users_keyed (snd (AddUser newUser user password d)))"
  by (auto simp: AddUser_def admin_record_def users_keyed_def iam_AddUser_def IsAdmin_def
      split: sum.splits)

lemma RemoveUser_admin_record:
  "admin_record (snd (RemoveUser rmUser user password d)) = admin_record d
   \<and> (users_keyed d \<longrightarrow> users_keyed (snd (RemoveUser rmUser user password d)))"
  by (auto simp: RemoveUser_def admin_record_def users_keyed_def iam_RemoveUser_def IsAdmin_def)

lemma UpdateUser_admin_record:
  assumes "users_keyed d"
  shows "admin_record (snd (UpdateUser uUser user password d)) = admin_record d
         \<and> users_keyed (snd (UpdateUser uUser user password d))"
proof (cases "users (iam d) (Username uUser)")
  case None
  then show ?thesis using assms by (simp add: UpdateUser_def iam_QueryUser_def)
next
  case (Some u)
  with assms have key: "Username u = Username uUser"
    by (simp add: users_keyed_def)
  show ?thesis
    using assms Some key
    by (auto simp: UpdateUser_def admin_record_def users_keyed_def iam_UpdateUser_def
        iam_QueryUser_def IsAdmin_def Let_def)
qed

lemma admin_step_admin_record:
  "users_keyed d \<Longrightarrow>
     admin_record (admin_step d op) = admin_record d \<and> users_keyed (admin_step d op)"
  by (cases op) (simp_all add: AddUser_admin_record RemoveUser_admin_record UpdateUser_admin_record)

lemma run_admin_admin_record:
  "users_keyed d \<Longrightarrow> admin_record (run_admin d ops) = admin_record d"
  unfolding run_admin_def
  by (induction ops arbitrary: d) (simp_all add: admin_step_admin_record)

text \<open>
  Claim C9. In a store where every user record is kept under its own name, after any list
  of \<open>AddUser\<close>, \<open>RemoveUser\<close> and \<open>UpdateUser\<close> requests by any callers the admin user is
  what it was: same name, same password, same record under its name, and \<open>CheckAdmin\<close>
  accepts the same credentials. \<open>AddUser\<close> of the admin's name or of an existing user's
  name, \<open>RemoveUser\<close> of the admin and \<open>UpdateUser\<close> of the admin return an error and
  change nothing.
\<close>

theorem admin_user_preserved:
  assumes "\<forall>k u. users (iam d) k = Some u \<longrightarrow> Username u = k"
  shows "admin_record (run_admin d ops) = admin_record d
   \<and> (\<forall>u p. CheckAdmin (iam (run_admin d ops)) u p = CheckAdmin (iam d) u p)
   \<and> (IsAdmin (iam d) (Username newUser) \<or> users (iam d) (Username newUser) \<noteq> None \<longrightarrow>
        fst (AddUser newUser user password d) \<noteq> None \<and> snd (AddUser newUser user password d) = d)
   \<and> (IsAdmin (iam d) rmUser \<longrightarrow>
        fst (RemoveUser rmUser user password d) \<noteq> None \<and> snd (RemoveUser rmUser user password d) = d)
   \<and> (IsAdmin (iam d) (Username uUser) \<longrightarrow>
        fst (UpdateUser uUser user password d) \<noteq> None \<and> snd (UpdateUser uUser user password d) = d)"
proof -
  from assms have "users_keyed d"
    by (simp add: users_keyed_def)
  then have rec: "admin_record (run_admin d ops) = admin_record d"
    by (rule run_admin_admin_record)
  then have chk: "\<forall>u p. CheckAdmin (iam (run_admin d ops)) u p = CheckAdmin (iam d) u p"
    by (simp add: admin_record_def CheckAdmin_def)
  have add: "IsAdmin (iam d) (Username newUser) \<or> users (iam d) (Username newUser) \<noteq> None \<longrightarrow>
        fst (AddUser newUser user password d) \<noteq> None \<and> snd (AddUser newUser user password d) = d"
    by (auto simp: AddUser_def iam_QueryUser_def)
  have rm: "IsAdmin (iam d) rmUser \<longrightarrow>
        fst (RemoveUser rmUser user password d) \<noteq> None \<and> snd (RemoveUser rmUser user password d) = d"
    by (simp add: RemoveUser_def)
  have upd: "IsAdmin (iam d) (Username uUser) \<longrightarrow>
        fst (UpdateUser uUser user password d) \<noteq> None \<and> snd (UpdateUser uUser user password d) = d"
    by (simp add: UpdateUser_def)
  from rec chk add rm upd show ?thesis by blast
qed

text \<open>C9 on the sample pool, with requests against the admin's name made by the admin.\<close>

theorem admin_user_preserved_witness:
  "admin_record (run_admin exPool exOps) = (''dagpool'', ''secret'', None)
   \<and> CheckAdmin (iam (run_admin exPool exOps)) ''dagpool'' ''secret''
   \<and> users (iam exPool) (Username exNewUser) \<noteq> None
   \<and> fst (AddUser exNewUser ''dagpool'' ''secret'' exPool) \<noteq> None
   \<and> snd (AddUser exNewUser ''dagpool'' ''secret'' exPool) = exPool
   \<and> IsAdmin (iam exPool) ''dagpool''
   \<and> fst (RemoveUser ''dagpool'' ''dagpool'' ''secret'' exPool) \<noteq> None
   \<and> snd (RemoveUser ''dagpool'' ''dagpool'' ''secret'' exPool) = exPool
   \<and> IsAdmin (iam exPool) (Username exRootUpdate)
   \<and> fst (UpdateUser exRootUpdate ''dagpool'' ''secret'' exPool) \<noteq> None
   \<and> snd (UpdateUser exRootUpdate ''dagpool'' ''secret'' exPool) = exPool"
proof -
  have keyed: "\<forall>k u. users (iam exPool) k = Some u \<longrightarrow> Username u = k"
    by (auto simp: exPool_def exIam_def exUsers_def split: if_splits)
  have rec: "admin_record exPool = (''dagpool'', ''secret'', None)"
    by (simp add: admin_record_def exPool_def exIam_def exUsers_def)
  have chk: "CheckAdmin (iam exPool) ''dagpool'' ''secret''"
    by (simp add: CheckAdmin_def exPool_def exIam_def)
  have known: "users (iam exPool) (Username exNewUser) \<noteq> None"
    by (simp add: exNewUser_def exPool_def exIam_def exUsers_def)
  have adm: "IsAdmin (iam exPool) ''dagpool''" "IsAdmin (iam exPool) (Username exRootUpdate)"
    by (simp_all add: IsAdmin_def exRootUpdate_def exPool_def exIam_def)
  from admin_user_preserved [OF keyed, of exOps exNewUser "''dagpool''" "''secret''" "''dagpool''" exRootUpdate]
    rec chk known adm
  show ?thesis by simp
qed

text \<open>
  Claim C10. For an authenticated caller who is not the admin, \<open>QueryUser\<close> of another
  name returns AccessDenied, a record is returned only for the caller's own name, and the
  caller's own name does return its record. For a caller with the admin's credentials
  \<open>QueryUser\<close> is the lookup of any name.
\<close>

theorem QueryUser_self_or_admin:
  "(CheckUser (iam d) user password \<and> \<not> IsAdmin (iam d) user \<longrightarrow>
      (qUser \<noteq> user \<longrightarrow> QueryUser qUser user password d = Inl AccessDenied)
      \<and> (\<forall>r. QueryUser qUser user password d = Inr r \<longrightarrow>
             qUser = user \<and> users (iam d) user = Some r)
      \<and> (qUser = user \<longrightarrow> (\<exists>r. QueryUser qUser user password d = Inr r)))
   \<and> (CheckAdmin (iam d) user password \<longrightarrow>
      QueryUser qUser user password d = iam_QueryUser (iam d) qUser)"
  by (auto simp: QueryUser_def iam_QueryUser_def CheckUser_def CheckAdmin_def IsAdmin_def
      split: option.splits)

text \<open>C10 on the sample pool: bob queries alice and himself, the admin queries alice.\<close>

theorem QueryUser_self_or_admin_witness:
  "CheckUser (iam exPool) ''bob'' ''pw-b'' \<and> \<not> IsAdmin (iam exPool) ''bob''
   \<and> QueryUser ''alice'' ''bob'' ''pw-b'' exPool = Inl AccessDenied
   \<and> QueryUser ''bob'' ''bob'' ''pw-b'' exPool
       = Inr \<lparr>Username = ''bob'', Password = ''pw-b'', Policy = ReadOnly, Capacity = 0\<rparr>
   \<and> CheckAdmin (iam exPool) ''dagpool'' ''secret''
   \<and> QueryUser ''alice'' ''dagpool'' ''secret'' exPool
       = Inr \<lparr>Username = ''alice'', Password = ''pw-a'', Policy = ReadWrite, Capacity = 10\<rparr>"
  using QueryUser_self_or_admin [of exPool "''bob''" "''pw-b''" "''alice''"]
    QueryUser_self_or_admin [of exPool "''bob''" "''pw-b''" "''bob''"]
    QueryUser_self_or_admin [of exPool "''dagpool''" "''secret''" "''alice''"]
  by (auto simp: exPool_def exIam_def exUsers_def CheckUser_def CheckAdmin_def IsAdmin_def
      iam_QueryUser_def)

section \<open>The DagNode\<close>

subsection \<open>Shards\<close>

lemma length_chunks: "length (chunks n sz xs) = n"
  by (induction n arbitrary: xs) simp_all

lemma concat_chunks: "concat (chunks n sz xs) = take (n * sz) xs"
proof (induction n arbitrary: xs)
  case 0
  then show ?case by simp
next
  case (Suc n)
  have "take sz xs @ take (n * sz) (drop sz xs) = take (sz + n * sz) xs"
    by (simp add: take_add)
  with Suc show ?case by simp
qed

lemma chunks_length:
  "n * sz \<le> length xs \<Longrightarrow> s \<in> set (chunks n sz xs) \<Longrightarrow> length s = sz"
proof (induction n arbitrary: xs)
  case 0
  then show ?case by simp
next
  case (Suc n)
  from Suc.prems(1) have a: "sz \<le> length xs" and b: "n * sz \<le> length (drop sz xs)"
    by simp_all
  from Suc.prems(2) consider "s = take sz xs" | "s \<in> set (chunks n sz (drop sz xs))"
    by auto
  then show ?case
    using a Suc.IH [OF b] by cases simp_all
qed

lemma shardLen_covers: "0 < k \<Longrightarrow> n \<le> k * shardLen k n"
proof -
  assume k: "0 < k"
  have "n + k - 1 = (n + k - 1) div k * k + (n + k - 1) mod k"
    by simp
  moreover have "(n + k - 1) mod k < k"
    using k by simp
  ultimately have "n + k - 1 < (n + k - 1) div k * k + k"
    by linarith
  then have "n \<le> (n + k - 1) div k * k"
    using k by linarith
  then show ?thesis by (simp add: shardLen_def mult.commute)
qed

lemma EncodeData_Inr:
  "EncodeData x enc data =
     Inr (chunks (encDataBlocks enc) (shardLen (encDataBlocks enc) (length data))
            (data @ replicate (encDataBlocks enc * shardLen (encDataBlocks enc) (length data)
                                 - length data) 0)
          @ parityShards x (encDataBlocks enc) (encParityBlocks enc)
              (shardLen (encDataBlocks enc) (length data))
              (chunks (encDataBlocks enc) (shardLen (encDataBlocks enc) (length data))
                 (data @ replicate (encDataBlocks enc * shardLen (encDataBlocks enc) (length data)
                                      - length data) 0)))"
  by (simp add: EncodeData_def Let_def)

lemma length_parityShards: "length (parityShards x k m len ds) = m"
  by (simp add: parityShards_def)

lemma parityShards_shard_length: "s \<in> set (parityShards x k m len ds) \<Longrightarrow> length s = len"
  by (auto simp: parityShards_def)

lemma EncodeData_length:
  assumes "EncodeData x enc data = Inr shards"
  shows "length shards = encDataBlocks enc + encParityBlocks enc"
proof -
  note sh = assms [unfolded EncodeData_Inr sum.inject, symmetric]
  show ?thesis
    by (subst sh) (simp only: length_append length_chunks length_parityShards)
qed

lemma EncodeData_shard_length:
  assumes "EncodeData x enc data = Inr shards" and "0 < encDataBlocks enc"
    and "s \<in> set shards"
  shows "length s = shardLen (encDataBlocks enc) (length data)"
proof -
  let ?k = "encDataBlocks enc"
  let ?len = "shardLen ?k (length data)"
  let ?padded = "data @ replicate (?k * ?len - length data) 0"
  let ?ds = "chunks ?k ?len ?padded"
  note sh = assms(1) [unfolded EncodeData_Inr sum.inject, symmetric]
  have "length data \<le> ?k * ?len"
    using assms(2) by (rule shardLen_covers)
  then have le: "?k * ?len \<le> length ?padded"
    by simp
  from assms(3) have "s \<in> set ?ds \<or> s \<in> set (parityShards x ?k (encParityBlocks enc) ?len ?ds)"
    by (subst (asm) sh) simp
  then show ?thesis
  proof
    assume "s \<in> set ?ds"
    with le show ?thesis by (rule chunks_length)
  next
    assume "s \<in> set (parityShards x ?k (encParityBlocks enc) ?len ?ds)"
    then show ?thesis by (rule parityShards_shard_length)
  qed
qed

lemma EncodeData_concat:
  assumes "EncodeData x enc data = Inr shards" and "0 < encDataBlocks enc"
  shows "concat (take (encDataBlocks enc) shards)
           = data @ replicate (encDataBlocks enc * shardLen (encDataBlocks enc) (length data)
                                 - length data) 0"
proof -
  let ?k = "encDataBlocks enc"
  let ?len = "shardLen ?k (length data)"
  let ?padded = "data @ replicate (?k * ?len - length data) 0"
  let ?ds = "chunks ?k ?len ?padded"
  note sh = assms(1) [unfolded EncodeData_Inr sum.inject, symmetric]
  have cover: "length data \<le> ?k * ?len"
    using assms(2) by (rule shardLen_covers)
  have "take ?k shards = ?ds"
    by (subst sh) (simp add: length_chunks)
  moreover have "take (?k * ?len) ?padded = ?padded"
    using cover by simp
  ultimately show ?thesis
    by (simp only: concat_chunks)
qed

lemma DecodeDataBlocks_same_length:
  assumes "\<forall>s \<in> set shards. length s = len" and "0 < encDataBlocks enc"
  shows "DecodeDataBlocks x enc shards = shards"
proof (cases "len = 0")
  case True
  with assms(1) have "filter (\<lambda>s. s \<noteq> []) shards = []"
    by (auto simp: filter_empty_conv)
  with assms(2) show ?thesis
    by (simp add: DecodeDataBlocks_def)
next
  case False
  with assms(1) have "list_all (\<lambda>s. s \<noteq> []) shards"
    by (auto simp: list_all_iff)
  then show ?thesis
    by (simp add: DecodeDataBlocks_def)
qed

lemma NewErasure_Inr:
  "NewErasure k m sz = Inr enc \<Longrightarrow>
     0 < encDataBlocks enc \<and> int (encDataBlocks enc) = k \<and> int (encParityBlocks enc) = m"
  by (auto simp: NewErasure_def split: if_splits)

lemma Verify_Inr: "\<exists>ok. Verify x enc shards = Inr ok"
  by (simp add: Verify_def Let_def)

subsection \<open>The loops over the members\<close>

lemma put_loop_Cons_success:
  assumes "put_loop fl key fid shards i (node # rest) = (None, ns')"
  shows "\<exists>node1 cask rest1.
           i < length shards \<and> \<not> fl (CaskPut i)
           \<and> put_loop fl key fid shards (Suc i) rest = (None, rest1)
           \<and> ns' = node1\<lparr>caskMap := (caskMap node1)(fid \<mapsto>
                       cask\<lparr>hintMap := (hintMap cask)(key \<mapsto> shards ! i)\<rparr>)\<rparr> # rest1"
proof -
  obtain e node1 where prep: "(case caskMap node fid of Some _ \<Rightarrow> (None, node)
     | None \<Rightarrow> createCask (fl (CreateCask i)) fid node) = (e, node1)"
    by (cases "(case caskMap node fid of Some _ \<Rightarrow> (None, node)
     | None \<Rightarrow> createCask (fl (CreateCask i)) fid node)")
  show ?thesis
  proof (cases e)
    case (Some err)
    with assms prep show ?thesis by simp
  next
    case None
    note e = this
    show ?thesis
    proof (cases "length shards \<le> i")
      case True
      with assms prep e show ?thesis by simp
    next
      case False
      note i = this
      show ?thesis
      proof (cases "caskMap node1 fid")
        case None
        with assms prep e i show ?thesis by simp
      next
        case (Some cask)
        note cask = this
        show ?thesis
        proof (cases "fl (CaskPut i)")
          case True
          with assms prep e cask i show ?thesis by (simp add: Cask_Put_def)
        next
          case False
          obtain r rest1 where pl: "put_loop fl key fid shards (Suc i) rest = (r, rest1)"
            by (cases "put_loop fl key fid shards (Suc i) rest")
          with assms prep e cask i False have "r = None"
            and "ns' = node1\<lparr>caskMap := (caskMap node1)(fid \<mapsto>
                       cask\<lparr>hintMap := (hintMap cask)(key \<mapsto> shards ! i)\<rparr>)\<rparr> # rest1"
            by (simp_all add: Cask_Put_def)
          with pl i False show ?thesis by auto
        qed
      qed
    qed
  qed
qed

lemma put_loop_success:
  "put_loop fl key fid shards i ns = (None, ns') \<Longrightarrow>
     length ns' = length ns
     \<and> (\<forall>j<length ns. i + j < length shards \<and> \<not> fl (CaskPut (i + j))
            \<and> member_holds (ns' ! j) fid key (shards ! (i + j)))"
proof (induction ns arbitrary: i ns')
  case Nil
  then show ?case by auto
next
  case (Cons node rest)
  from put_loop_Cons_success [OF Cons.prems] obtain node1 cask rest1 where
    i: "i < length shards" and
    p: "\<not> fl (CaskPut i)" and
    r: "put_loop fl key fid shards (Suc i) rest = (None, rest1)" and
    n: "ns' = node1\<lparr>caskMap := (caskMap node1)(fid \<mapsto> cask\<lparr>hintMap := (hintMap cask)(key \<mapsto> shards ! i)\<rparr>)\<rparr> # rest1"
    by blast
  from Cons.IH [OF r] have ih: "length rest1 = length rest"
    "\<forall>j<length rest. Suc i + j < length shards \<and> \<not> fl (CaskPut (Suc i + j))
        \<and> member_holds (rest1 ! j) fid key (shards ! (Suc i + j))"
    by simp_all
  have "i + j < length shards \<and> \<not> fl (CaskPut (i + j))
          \<and> member_holds (ns' ! j) fid key (shards ! (i + j))"
    if "j < length (node # rest)" for j
  proof (cases j)
    case 0
    then show ?thesis using p n i by (simp add: member_holds_def)
  next
    case (Suc j')
    with that have "j' < length rest" by simp
    with ih(2) Suc n show ?thesis by simp
  qed
  with ih(1) n show ?case by simp
qed

lemma put_loop_read_loop:
  "put_loop fl key fid shards i ns = (None, ns') \<Longrightarrow> \<forall>j. \<not> fl' (CaskRead j) \<Longrightarrow>
     read_loop fl' key fid i ns' = Inr (take (length ns) (drop i shards))"
proof (induction ns arbitrary: i ns')
  case Nil
  then show ?case by auto
next
  case (Cons node rest)
  from put_loop_Cons_success [OF Cons.prems(1)] obtain node1 cask rest1 where
    i: "i < length shards" and
    r: "put_loop fl key fid shards (Suc i) rest = (None, rest1)" and
    n: "ns' = node1\<lparr>caskMap := (caskMap node1)(fid \<mapsto> cask\<lparr>hintMap := (hintMap cask)(key \<mapsto> shards ! i)\<rparr>)\<rparr> # rest1"
    by blast
  from Cons.IH [OF r Cons.prems(2)]
  have "read_loop fl' key fid (Suc i) rest1 = Inr (take (length rest) (drop (Suc i) shards))" .
  moreover have "shards ! i # take (length rest) (drop (Suc i) shards)
                   = take (length (node # rest)) (drop i shards)"
    using i by (simp add: Cons_nth_drop_Suc [symmetric])
  ultimately show ?case
    using n Cons.prems(2) by (simp add: Cask_Read_def)
qed

lemma put_loop_size_loop:
  "put_loop fl key fid shards i ns = (None, ns') \<Longrightarrow> \<forall>j. \<not> fl' (CaskSize j) \<Longrightarrow>
     size_loop fl' key fid i cnt ns'
       = Inr (cnt + int (sum_list (map length (take (length ns) (drop i shards)))))"
proof (induction ns arbitrary: i ns' cnt)
  case Nil
  then show ?case by auto
next
  case (Cons node rest)
  from put_loop_Cons_success [OF Cons.prems(1)] obtain node1 cask rest1 where
    i: "i < length shards" and
    r: "put_loop fl key fid shards (Suc i) rest = (None, rest1)" and
    n: "ns' = node1\<lparr>caskMap := (caskMap node1)(fid \<mapsto> cask\<lparr>hintMap := (hintMap cask)(key \<mapsto> shards ! i)\<rparr>)\<rparr> # rest1"
    by blast
  from Cons.IH [OF r Cons.prems(2)]
  have ih: "size_loop fl' key fid (Suc i) (cnt + int (length (shards ! i))) rest1
          = Inr (cnt + int (length (shards ! i))
                 + int (sum_list (map length (take (length rest) (drop (Suc i) shards)))))" .
  have "take (length (node # rest)) (drop i shards)
          = shards ! i # take (length rest) (drop (Suc i) shards)"
    using i by (simp add: Cons_nth_drop_Suc [symmetric])
  then have "int (sum_list (map length (take (length (node # rest)) (drop i shards))))
               = int (length (shards ! i))
                 + int (sum_list (map length (take (length rest) (drop (Suc i) shards))))"
    by simp
  with ih show ?case
    using n Cons.prems(2) by (simp add: Cask_Size_def)
qed

lemma put_loop_first_failure:
  "j < length ns \<Longrightarrow> i + j < length shards \<Longrightarrow> fl (CaskPut (i + j)) \<Longrightarrow>
   \<forall>t<j. \<not> fl (CaskPut (i + t)) \<Longrightarrow> \<forall>t\<le>j. cask_ready fl fid (i + t) (ns ! t) \<Longrightarrow>
     fst (put_loop fl key fid shards i ns) = Some ErrNoSpace
     \<and> length (snd (put_loop fl key fid shards i ns)) = length ns
     \<and> (\<forall>t<j. member_holds (snd (put_loop fl key fid shards i ns) ! t) fid key (shards ! (i + t)))"
proof (induction ns arbitrary: i j)
  case Nil
  then show ?case by simp
next
  case (Cons node rest)
  from Cons.prems(5) have "cask_ready fl fid (i + 0) ((node # rest) ! 0)"
    by blast
  then have ready: "cask_ready fl fid i node"
    by simp
  define node1 where "node1 = (case caskMap node fid of Some _ \<Rightarrow> node
     | None \<Rightarrow> node\<lparr>caskMap := (caskMap node)(fid \<mapsto> NewCask), ids := ids node @ [fid]\<rparr>)"
  from ready have prep: "(case caskMap node fid of Some _ \<Rightarrow> (None, node)
     | None \<Rightarrow> createCask (fl (CreateCask i)) fid node) = (None, node1)"
    by (auto simp: cask_ready_def createCask_def node1_def split: option.splits)
  have "caskMap node1 fid \<noteq> None"
    by (cases "caskMap node fid") (simp_all add: node1_def)
  then obtain cask where cask: "caskMap node1 fid = Some cask"
    by blast
  show ?case
  proof (cases j)
    case 0
    with Cons.prems(2,3) show ?thesis
      using prep cask by (simp add: Cask_Put_def)
  next
    case (Suc j')
    from Cons.prems(4) Suc have "\<not> fl (CaskPut (i + 0))"
      by blast
    then have ok: "\<not> fl (CaskPut i)"
      by simp
    from Cons.prems(2) Suc have ilt: "i < length shards" by simp
    have a: "j' < length rest" using Cons.prems(1) Suc by simp
    have b: "Suc i + j' < length shards" using Cons.prems(2) Suc by simp
    have c: "fl (CaskPut (Suc i + j'))" using Cons.prems(3) Suc by simp
    have d: "\<forall>t<j'. \<not> fl (CaskPut (Suc i + t))"
    proof (intro allI impI)
      fix t assume "t < j'"
      then have "Suc t < j" using Suc by simp
      with Cons.prems(4) have "\<not> fl (CaskPut (i + Suc t))" by blast
      then show "\<not> fl (CaskPut (Suc i + t))" by simp
    qed
    have e: "\<forall>t\<le>j'. cask_ready fl fid (Suc i + t) (rest ! t)"
    proof (intro allI impI)
      fix t assume "t \<le> j'"
      then have "Suc t \<le> j" using Suc by simp
      with Cons.prems(5) have "cask_ready fl fid (i + Suc t) ((node # rest) ! Suc t)" by blast
      then show "cask_ready fl fid (Suc i + t) (rest ! t)" by simp
    qed
    note ih = Cons.IH [OF a b c d e]
    obtain r rest1 where pl: "put_loop fl key fid shards (Suc i) rest = (r, rest1)"
      by (cases "put_loop fl key fid shards (Suc i) rest")
    with ih have r: "r = Some ErrNoSpace" and len: "length rest1 = length rest"
      and held: "\<forall>t<j'. member_holds (rest1 ! t) fid key (shards ! (Suc i + t))"
      by simp_all
    let ?node2 = "node1\<lparr>caskMap := (caskMap node1)(fid \<mapsto> cask\<lparr>hintMap := (hintMap cask)(key \<mapsto> shards ! i)\<rparr>)\<rparr>"
    have res: "put_loop fl key fid shards i (node # rest) = (Some ErrNoSpace, ?node2 # rest1)"
      using prep cask ok ilt pl r by (simp add: Cask_Put_def)
    have "member_holds ((?node2 # rest1) ! t) fid key (shards ! (i + t))" if "t < j" for t
    proof (cases t)
      case 0
      then show ?thesis by (simp add: member_holds_def)
    next
      case (Suc t')
      with that \<open>j = Suc j'\<close> have "t' < j'" by simp
      with held Suc show ?thesis by simp
    qed
    with res len show ?thesis by simp
  qed
qed

lemma createCask_CaskNum: "CaskNum (snd (createCask f fid node)) = CaskNum node"
  by (simp add: createCask_def)

lemma put_loop_CaskNum:
  "map CaskNum (snd (put_loop fl key fid shards i ns)) = map CaskNum ns"
proof (induction ns arbitrary: i)
  case Nil
  then show ?case by simp
next
  case (Cons node rest)
  obtain e node1 where prep: "(case caskMap node fid of Some _ \<Rightarrow> (None, node)
     | None \<Rightarrow> createCask (fl (CreateCask i)) fid node) = (e, node1)"
    by (cases "(case caskMap node fid of Some _ \<Rightarrow> (None, node)
     | None \<Rightarrow> createCask (fl (CreateCask i)) fid node)")
  then have cn: "CaskNum node1 = CaskNum node"
    by (cases "caskMap node fid") (auto simp: createCask_def split: if_splits)
  obtain r rest1 where pl: "put_loop fl key fid shards (Suc i) rest = (r, rest1)"
    by (cases "put_loop fl key fid shards (Suc i) rest")
  with Cons.IH [of "Suc i"] have ih: "map CaskNum rest1 = map CaskNum rest"
    by simp
  show ?case
    using prep cn pl ih
    by (simp add: Cask_Put_def split: option.splits)
qed

lemma length_put_loop:
  "length (snd (put_loop fl key fid shards i ns)) = length ns"
  using put_loop_CaskNum [of fl key fid shards i ns] by (metis length_map)

lemma put_loop_ok:
  "\<forall>t<length ns. \<not> fl (CaskPut (i + t)) \<and> cask_ready fl fid (i + t) (ns ! t) \<Longrightarrow>
   i + length ns \<le> length shards \<Longrightarrow> fst (put_loop fl key fid shards i ns) = None"
proof (induction ns arbitrary: i)
  case Nil
  then show ?case by simp
next
  case (Cons node rest)
  from Cons.prems(1) have "\<not> fl (CaskPut (i + 0)) \<and> cask_ready fl fid (i + 0) ((node # rest) ! 0)"
    by (metis length_greater_0_conv list.distinct(1))
  then have ok: "\<not> fl (CaskPut i)" and ready: "cask_ready fl fid i node"
    by simp_all
  define node1 where "node1 = (case caskMap node fid of Some _ \<Rightarrow> node
     | None \<Rightarrow> node\<lparr>caskMap := (caskMap node)(fid \<mapsto> NewCask), ids := ids node @ [fid]\<rparr>)"
  from ready have prep: "(case caskMap node fid of Some _ \<Rightarrow> (None, node)
     | None \<Rightarrow> createCask (fl (CreateCask i)) fid node) = (None, node1)"
    by (auto simp: cask_ready_def createCask_def node1_def split: option.splits)
  have "caskMap node1 fid \<noteq> None"
    by (cases "caskMap node fid") (simp_all add: node1_def)
  then obtain cask where cask: "caskMap node1 fid = Some cask"
    by blast
  have rest: "\<forall>t<length rest. \<not> fl (CaskPut (Suc i + t)) \<and> cask_ready fl fid (Suc i + t) (rest ! t)"
  proof (intro allI impI)
    fix t assume "t < length rest"
    then have "Suc t < length (node # rest)" by simp
    with Cons.prems(1) have "\<not> fl (CaskPut (i + Suc t)) \<and> cask_ready fl fid (i + Suc t) ((node # rest) ! Suc t)"
      by blast
    then show "\<not> fl (CaskPut (Suc i + t)) \<and> cask_ready fl fid (Suc i + t) (rest ! t)"
      by simp
  qed
  from Cons.prems(2) have len: "Suc i + length rest \<le> length shards" and ilt: "i < length shards"
    by simp_all
  from Cons.IH [OF rest len] obtain rest1 where
    "put_loop fl key fid shards (Suc i) rest = (None, rest1)"
    by (cases "put_loop fl key fid shards (Suc i) rest") auto
  then show ?case
    using prep cask ok ilt by (simp add: Cask_Put_def)
qed

lemma member_error_NoSpace:
  "cask_ready fl fid i node \<Longrightarrow> member_error fl fid i node = ErrNoSpace"
  by (auto simp: cask_ready_def member_error_def)

lemma put_loop_stops_here:
  assumes "i < length shards" and "member_fails fl fid i node"
  shows "\<exists>node1. put_loop fl key fid shards i (node # rest)
                  = (Some (member_error fl fid i node), node1 # rest)
               \<and> (\<forall>f k v. member_holds node1 f k v = member_holds node f k v)"
proof (cases "caskMap node fid")
  case (Some cask)
  with assms(2) have w: "fl (CaskPut i)"
    by (simp add: member_fails_def cask_ready_def)
  have same: "node\<lparr>caskMap := (caskMap node)(fid \<mapsto> cask)\<rparr> = node"
    using Some by (simp add: fun_upd_idem)
  show ?thesis
    using Some w assms(1) same by (simp add: Cask_Put_def member_error_def)
next
  case None
  note none = this
  show ?thesis
  proof (cases "hasId (ids node) fid")
    case True
    with none assms(1) show ?thesis
      by (simp add: createCask_def member_error_def)
  next
    case False
    note noid = this
    show ?thesis
    proof (cases "fl (CreateCask i)")
      case True
      with none noid show ?thesis
        by (simp add: createCask_def member_error_def)
    next
      case False
      with none noid assms(2) have w: "fl (CaskPut i)"
        by (simp add: member_fails_def cask_ready_def)
      let ?node1 = "node\<lparr>caskMap := (caskMap node)(fid \<mapsto> NewCask), ids := ids node @ [fid]\<rparr>"
      have res: "put_loop fl key fid shards i (node # rest)
                   = (Some ErrNoSpace, ?node1\<lparr>caskMap := (caskMap ?node1)(fid \<mapsto> NewCask)\<rparr> # rest)"
        using none noid False w assms(1) by (simp add: createCask_def Cask_Put_def)
      have "member_holds (?node1\<lparr>caskMap := (caskMap ?node1)(fid \<mapsto> NewCask)\<rparr>) f k v
              = member_holds node f k v" for f k v
        using none by (simp add: member_holds_def NewCask_def)
      with res none noid False show ?thesis
        by (simp add: member_error_def)
    qed
  qed
qed

lemma put_loop_step_ok:
  assumes "i < length shards" and "\<not> fl (CaskPut i)" and "cask_ready fl fid i node"
  shows "\<exists>node2. put_loop fl key fid shards i (node # rest)
                  = (fst (put_loop fl key fid shards (Suc i) rest),
                     node2 # snd (put_loop fl key fid shards (Suc i) rest))
               \<and> member_holds node2 fid key (shards ! i)"
proof -
  define node1 where "node1 = (case caskMap node fid of Some _ \<Rightarrow> node
     | None \<Rightarrow> node\<lparr>caskMap := (caskMap node)(fid \<mapsto> NewCask), ids := ids node @ [fid]\<rparr>)"
  from assms(3) have prep: "(case caskMap node fid of Some _ \<Rightarrow> (None, node)
     | None \<Rightarrow> createCask (fl (CreateCask i)) fid node) = (None, node1)"
    by (auto simp: cask_ready_def createCask_def node1_def split: option.splits)
  have "caskMap node1 fid \<noteq> None"
    by (cases "caskMap node fid") (simp_all add: node1_def)
  then obtain cask where cask: "caskMap node1 fid = Some cask"
    by blast
  let ?node2 = "node1\<lparr>caskMap := (caskMap node1)(fid \<mapsto> cask\<lparr>hintMap := (hintMap cask)(key \<mapsto> shards ! i)\<rparr>)\<rparr>"
  have "put_loop fl key fid shards i (node # rest)
          = (fst (put_loop fl key fid shards (Suc i) rest),
             ?node2 # snd (put_loop fl key fid shards (Suc i) rest))"
    using prep cask assms(1,2) by (simp add: Cask_Put_def split: prod.splits)
  moreover have "member_holds ?node2 fid key (shards ! i)"
    by (simp add: member_holds_def)
  ultimately show ?thesis by blast
qed

lemma put_loop_stops:
  "j < length ns \<Longrightarrow> i + j < length shards \<Longrightarrow>
   \<forall>t<j. \<not> fl (CaskPut (i + t)) \<and> cask_ready fl fid (i + t) (ns ! t) \<Longrightarrow>
   member_fails fl fid (i + j) (ns ! j) \<Longrightarrow>
     fst (put_loop fl key fid shards i ns) = Some (member_error fl fid (i + j) (ns ! j))
     \<and> length (snd (put_loop fl key fid shards i ns)) = length ns
     \<and> (\<forall>t<j. member_holds (snd (put_loop fl key fid shards i ns) ! t) fid key (shards ! (i + t)))
     \<and> (\<forall>f k v. member_holds (snd (put_loop fl key fid shards i ns) ! j) f k v
                  = member_holds (ns ! j) f k v)
     \<and> (\<forall>t. j < t \<and> t < length ns \<longrightarrow> snd (put_loop fl key fid shards i ns) ! t = ns ! t)"
proof (induction ns arbitrary: i j)
  case Nil
  then show ?case by simp
next
  case (Cons node rest)
  show ?case
  proof (cases j)
    case 0
    with Cons.prems have i: "i < length shards" and f: "member_fails fl fid i node"
      by simp_all
    from put_loop_stops_here [OF i f, of key rest] obtain node1 where
      res: "put_loop fl key fid shards i (node # rest) = (Some (member_error fl fid i node), node1 # rest)"
      and same: "\<forall>f k v. member_holds node1 f k v = member_holds node f k v"
      by blast
    have "(node1 # rest) ! t = (node # rest) ! t" if "0 < t" for t
      using that by (cases t) simp_all
    with res same 0 show ?thesis by (simp del: put_loop.simps)
  next
    case (Suc j')
    from Cons.prems(3) Suc have "\<not> fl (CaskPut (i + 0)) \<and> cask_ready fl fid (i + 0) ((node # rest) ! 0)"
      by blast
    then have ok: "\<not> fl (CaskPut i)" and ready: "cask_ready fl fid i node"
      by simp_all
    from Cons.prems(2) Suc have ilt: "i < length shards" by simp
    have a: "j' < length rest" using Cons.prems(1) Suc by simp
    have b: "Suc i + j' < length shards" using Cons.prems(2) Suc by simp
    have c: "\<forall>t<j'. \<not> fl (CaskPut (Suc i + t)) \<and> cask_ready fl fid (Suc i + t) (rest ! t)"
    proof (intro allI impI)
      fix t assume "t < j'"
      then have "Suc t < j" using Suc by simp
      with Cons.prems(3)
      have "\<not> fl (CaskPut (i + Suc t)) \<and> cask_ready fl fid (i + Suc t) ((node # rest) ! Suc t)"
        by blast
      then show "\<not> fl (CaskPut (Suc i + t)) \<and> cask_ready fl fid (Suc i + t) (rest ! t)"
        by simp
    qed
    have d: "member_fails fl fid (Suc i + j') (rest ! j')"
      using Cons.prems(4) Suc by simp
    note ih = Cons.IH [OF a b c d]
    from put_loop_step_ok [OF ilt ok ready, of key rest] obtain node2 where
      res: "put_loop fl key fid shards i (node # rest)
              = (fst (put_loop fl key fid shards (Suc i) rest),
                 node2 # snd (put_loop fl key fid shards (Suc i) rest))"
      and held: "member_holds node2 fid key (shards ! i)"
      by blast
    let ?rest1 = "snd (put_loop fl key fid shards (Suc i) rest)"
    have e1: "fst (put_loop fl key fid shards i (node # rest))
                = Some (member_error fl fid (i + j) ((node # rest) ! j))"
      using ih Suc by (simp add: res del: put_loop.simps)
    have e2: "length (snd (put_loop fl key fid shards i (node # rest))) = length (node # rest)"
      using ih by (simp add: res del: put_loop.simps)
    have e3: "member_holds (snd (put_loop fl key fid shards i (node # rest)) ! t) fid key
                (shards ! (i + t))" if "t < j" for t
    proof (cases t)
      case 0
      with held show ?thesis by (simp add: res del: put_loop.simps)
    next
      case (Suc t')
      with that \<open>j = Suc j'\<close> have "t' < j'" by simp
      with ih Suc show ?thesis by (simp add: res del: put_loop.simps)
    qed
    have e4: "member_holds (snd (put_loop fl key fid shards i (node # rest)) ! j) f k v
                = member_holds ((node # rest) ! j) f k v" for f k v
      using ih Suc by (simp add: res del: put_loop.simps)
    have e5: "snd (put_loop fl key fid shards i (node # rest)) ! t = (node # rest) ! t"
      if "j < t \<and> t < length (node # rest)" for t
    proof -
      from that Suc obtain t' where t: "t = Suc t'" and "j' < t'" "t' < length rest"
        by (cases t) auto
      with ih show ?thesis by (simp add: res del: put_loop.simps)
    qed
    from e1 e2 e3 e4 e5 show ?thesis by blast
  qed
qed

lemma put_loop_other_casks:
  "f \<noteq> fid \<Longrightarrow>
     map (\<lambda>n. caskMap n f) (snd (put_loop fl key fid shards i ns)) = map (\<lambda>n. caskMap n f) ns"
proof (induction ns arbitrary: i)
  case Nil
  then show ?case by simp
next
  case (Cons node rest)
  obtain e node1 where prep: "(case caskMap node fid of Some _ \<Rightarrow> (None, node)
     | None \<Rightarrow> createCask (fl (CreateCask i)) fid node) = (e, node1)"
    by (cases "(case caskMap node fid of Some _ \<Rightarrow> (None, node)
     | None \<Rightarrow> createCask (fl (CreateCask i)) fid node)")
  then have cn: "caskMap node1 f = caskMap node f"
    using Cons.prems by (cases "caskMap node fid") (auto simp: createCask_def split: if_splits)
  obtain r rest1 where pl: "put_loop fl key fid shards (Suc i) rest = (r, rest1)"
    by (cases "put_loop fl key fid shards (Suc i) rest")
  with Cons.IH [OF Cons.prems, of "Suc i"]
  have ih: "map (\<lambda>n. caskMap n f) rest1 = map (\<lambda>n. caskMap n f) rest"
    by simp
  show ?case
    using prep cn pl ih Cons.prems
    by (simp add: Cask_Put_def split: option.splits)
qed

subsection \<open>Put, Get and GetSize\<close>

lemma fileID_nodes:
  "map CaskNum (nodes d') = map CaskNum (nodes d) \<Longrightarrow> fileID d' key = fileID d key"
  by (cases "nodes d"; cases "nodes d'") (auto simp: fileID_def)

lemma DagNode_Put_unfold:
  assumes "\<not> dnFails d DbPut"
    and "NewErasure (dataBlocks d) (parityBlocks d) (int (length (RawData block))) = Inr enc"
    and "EncodeData x enc (RawData block) = Inr shards"
    and "fileID d (sha256String (Cid block)) = Inr fid"
  shows "DagNode_Put x d block =
           (fst (put_loop (dnFails d) (sha256String (Cid block)) fid shards 0 (nodes d)),
            d\<lparr>db := (db d)(Cid block \<mapsto> int (length (RawData block))),
               nodes := snd (put_loop (dnFails d) (sha256String (Cid block)) fid shards 0 (nodes d))\<rparr>)"
proof -
  let ?d1 = "d\<lparr>db := (db d)(Cid block \<mapsto> int (length (RawData block)))\<rparr>"
  have f: "fileID ?d1 (sha256String (Cid block)) = Inr fid"
    using assms(4) fileID_nodes [of ?d1 d] by simp
  obtain ok where v: "Verify x enc shards = Inr ok"
    using Verify_Inr by blast
  show ?thesis
    using assms(1,2,3) f v
    by (simp add: DagNode_Put_def db_Put_def Let_def split: prod.splits)
qed

lemma DagNode_Put_success:
  assumes "DagNode_Put x d block = (None, d')"
  shows "\<exists>enc shards fid ns.
           NewErasure (dataBlocks d) (parityBlocks d) (int (length (RawData block))) = Inr enc
           \<and> EncodeData x enc (RawData block) = Inr shards
           \<and> fileID d (sha256String (Cid block)) = Inr fid
           \<and> put_loop (dnFails d) (sha256String (Cid block)) fid shards 0 (nodes d) = (None, ns)
           \<and> d' = d\<lparr>db := (db d)(Cid block \<mapsto> int (length (RawData block))), nodes := ns\<rparr>"
proof -
  let ?d1 = "d\<lparr>db := (db d)(Cid block \<mapsto> int (length (RawData block)))\<rparr>"
  have nofail: "\<not> dnFails d DbPut"
    using assms by (auto simp: DagNode_Put_def db_Put_def)
  then have dbp: "db_Put d (Cid block) (int (length (RawData block))) = (None, ?d1)"
    by (simp add: db_Put_def)
  obtain enc where enc: "NewErasure (dataBlocks d) (parityBlocks d) (int (length (RawData block))) = Inr enc"
    using assms dbp
    by (cases "NewErasure (dataBlocks d) (parityBlocks d) (int (length (RawData block)))")
       (auto simp: DagNode_Put_def)
  obtain shards where sh: "EncodeData x enc (RawData block) = Inr shards"
    by (simp add: EncodeData_def Let_def)
  have fd: "fileID ?d1 (sha256String (Cid block)) = fileID d (sha256String (Cid block))"
    by (rule fileID_nodes) simp
  obtain ok where v: "Verify x enc shards = Inr ok"
    using Verify_Inr by blast
  obtain fid where fid: "fileID d (sha256String (Cid block)) = Inr fid"
    using assms dbp enc sh v fd
    by (cases "fileID d (sha256String (Cid block))") (auto simp: DagNode_Put_def)
  from DagNode_Put_unfold [OF nofail enc sh fid] assms
  have "put_loop (dnFails d) (sha256String (Cid block)) fid shards 0 (nodes d)
          = (None, snd (put_loop (dnFails d) (sha256String (Cid block)) fid shards 0 (nodes d)))"
    and "d' = d\<lparr>db := (db d)(Cid block \<mapsto> int (length (RawData block))),
               nodes := snd (put_loop (dnFails d) (sha256String (Cid block)) fid shards 0 (nodes d))\<rparr>"
    by (simp_all add: prod_eq_iff)
  with enc sh fid show ?thesis by blast
qed

lemma DagNode_Put_CaskNum:
  "map CaskNum (nodes (snd (DagNode_Put x d block))) = map CaskNum (nodes d)"
proof -
  have "\<And>r ns fl key fid shards. put_loop fl key fid shards 0 (nodes d) = (r, ns) \<Longrightarrow>
          map CaskNum ns = map CaskNum (nodes d)"
    using put_loop_CaskNum by (metis snd_conv)
  then show ?thesis
    by (auto simp: DagNode_Put_def db_Put_def Let_def split: sum.splits prod.splits option.splits)
qed

lemma Join_take:
  assumes "n \<le> length (concat s)" and "Join x s = (data, cap)"
  shows "n \<le> cap \<and> take n (data @ replicate (cap - length data) 0) = take n (concat s)"
proof (cases s)
  case Nil
  with assms show ?thesis by (simp add: Join_def)
next
  case (Cons v rest)
  show ?thesis
  proof (cases rest)
    case Nil
    with Cons assms show ?thesis by (auto simp: Join_def)
  next
    case (Cons w rest')
    with \<open>s = v # rest\<close> assms show ?thesis by (auto simp: Join_def)
  qed
qed

lemma Get_after_Put:
  assumes put: "DagNode_Put x d block = (None, d')"
    and wf: "int (length (nodes d)) = dataBlocks d + parityBlocks d"
    and hash: "hashCheck x (RawData block) (Cid block) = None"
    and dbget: "\<not> dnFails d DbGet"
    and reads: "\<forall>i. \<not> dnFails d (CaskRead i)"
  shows "DagNode_Get x d' (Cid block) = Inr \<lparr>Cid = Cid block, RawData = RawData block\<rparr>"
proof -
  let ?key = "sha256String (Cid block)"
  let ?len = "length (RawData block)"
  from DagNode_Put_success [OF put] obtain enc shards fid ns where
    enc: "NewErasure (dataBlocks d) (parityBlocks d) (int ?len) = Inr enc" and
    sh: "EncodeData x enc (RawData block) = Inr shards" and
    fid: "fileID d ?key = Inr fid" and
    pl: "put_loop (dnFails d) ?key fid shards 0 (nodes d) = (None, ns)" and
    d': "d' = d\<lparr>db := (db d)(Cid block \<mapsto> int ?len), nodes := ns\<rparr>"
    by blast
  from NewErasure_Inr [OF enc] have k: "0 < encDataBlocks enc"
    and km: "int (encDataBlocks enc) = dataBlocks d" "int (encParityBlocks enc) = parityBlocks d"
    by simp_all
  have slen: "length shards = length (nodes d)"
    using EncodeData_length [OF sh] wf km by linarith
  have g1: "db_Get d' (Cid block) = Inr (int ?len)"
    using dbget by (simp add: db_Get_def d')
  have "map CaskNum ns = map CaskNum (nodes d)"
    using put_loop_CaskNum [of "dnFails d" ?key fid shards 0 "nodes d"] pl by simp
  then have g2: "fileID d' ?key = Inr fid"
    using fid fileID_nodes [of d' d ?key] by (simp add: d')
  have g3: "read_loop (dnFails d') ?key fid 0 (nodes d') = Inr shards"
    using put_loop_read_loop [OF pl reads] slen by (simp add: d')
  have g4: "NewErasure (dataBlocks d') (parityBlocks d') (int ?len) = Inr enc"
    using enc by (simp add: d')
  have same: "\<forall>s \<in> set shards. length s = shardLen (encDataBlocks enc) ?len"
    using EncodeData_shard_length [OF sh k] by blast
  have g5: "DecodeDataBlocks x enc shards = shards"
    using same k by (rule DecodeDataBlocks_same_length)
  have "concat shards = concat (take (encDataBlocks enc) shards) @ concat (drop (encDataBlocks enc) shards)"
    by (metis append_take_drop_id concat_append)
  then have g6: "take ?len (concat shards) = RawData block"
    by (simp add: EncodeData_concat [OF sh k])
  then have "length (take ?len (concat shards)) = ?len"
    by (simp only:)
  then have le: "?len \<le> length (concat shards)"
    by simp
  obtain data cap where j: "Join x shards = (data, cap)"
    by (cases "Join x shards")
  from Join_take [OF le j] g6
  have cap: "?len \<le> cap" and tk: "take ?len (data @ replicate (cap - length data) 0) = RawData block"
    by simp_all
  from cap have g7: "\<not> (int ?len < 0 \<or> int cap < int ?len)"
    by simp
  have g8: "NewBlockWithCid x (RawData block) (Cid block) = Inr \<lparr>Cid = Cid block, RawData = RawData block\<rparr>"
    using hash by (simp add: NewBlockWithCid_def)
  show ?thesis
    unfolding DagNode_Get_def Let_def
    by (simp only: g1 g2 g3 g4 g5 j tk g7 g8 sum.case prod.case if_False nat_int)
qed

lemma GetSize_after_Put:
  assumes put: "DagNode_Put x d block = (None, d')"
    and wf: "int (length (nodes d)) = dataBlocks d + parityBlocks d"
    and sizes: "\<forall>i. \<not> dnFails d (CaskSize i)"
  shows "DagNode_GetSize d' (Cid block)
           = Inr (int (length (nodes d) * shardLen (nat (dataBlocks d)) (length (RawData block))))"
proof -
  let ?key = "sha256String (Cid block)"
  let ?len = "length (RawData block)"
  from DagNode_Put_success [OF put] obtain enc shards fid ns where
    enc: "NewErasure (dataBlocks d) (parityBlocks d) (int ?len) = Inr enc" and
    sh: "EncodeData x enc (RawData block) = Inr shards" and
    fid: "fileID d ?key = Inr fid" and
    pl: "put_loop (dnFails d) ?key fid shards 0 (nodes d) = (None, ns)" and
    d': "d' = d\<lparr>db := (db d)(Cid block \<mapsto> int ?len), nodes := ns\<rparr>"
    by blast
  from NewErasure_Inr [OF enc] have k: "0 < encDataBlocks enc"
    and km: "int (encDataBlocks enc) = dataBlocks d" "int (encParityBlocks enc) = parityBlocks d"
    by simp_all
  from km(1) have kn: "nat (dataBlocks d) = encDataBlocks enc"
    by simp
  have slen: "length shards = length (nodes d)"
    using EncodeData_length [OF sh] wf km by linarith
  have "map CaskNum ns = map CaskNum (nodes d)"
    using put_loop_CaskNum [of "dnFails d" ?key fid shards 0 "nodes d"] pl by simp
  then have g2: "fileID d' ?key = Inr fid"
    using fid fileID_nodes [of d' d ?key] by (simp add: d')
  have same: "\<forall>s \<in> set shards. length s = shardLen (encDataBlocks enc) ?len"
    using EncodeData_shard_length [OF sh k] by blast
  then have "map length shards = replicate (length shards) (shardLen (encDataBlocks enc) ?len)"
    by (simp add: map_replicate_const [symmetric] cong: map_cong)
  then have total: "sum_list (map length shards) = length (nodes d) * shardLen (encDataBlocks enc) ?len"
    by (simp add: sum_list_replicate slen)
  have "size_loop (dnFails d') ?key fid 0 0 (nodes d')
          = Inr (0 + int (sum_list (map length (take (length (nodes d)) (drop 0 shards)))))"
    using put_loop_size_loop [OF pl sizes] by (simp add: d')
  then have g3: "size_loop (dnFails d') ?key fid 0 0 (nodes d')
          = Inr (int (length (nodes d) * shardLen (encDataBlocks enc) ?len))"
    using slen total by simp
  show ?thesis
    unfolding DagNode_GetSize_def Let_def
    by (simp only: g2 g3 sum.case kn)
qed

subsection \<open>The sample DagNode\<close>

lemma ex_NewErasure:
  "NewErasure (dataBlocks exDagNode) (parityBlocks exDagNode) (int (length (RawData exBlock))) = Inr exEnc"
  by (simp add: NewErasure_def exDagNode_def exBlock_def exEnc_def)

lemma ex_EncodeData: "EncodeData exExt exEnc (RawData exBlock) = Inr exShards"
  by code_simp

lemma ex_fileID:
  "fileID exDagNode key = Inr (ChecksumIEEE (bytes_of key) mod 256)"
  by (simp add: fileID_def exDagNode_def exNode_def)

lemma ex_nodes_ready:
  "t < 3 \<Longrightarrow> cask_ready fl fid t ([exNode, exNode, exNode] ! t) = (\<not> fl (CreateCask t))"
  by (auto simp: cask_ready_def exNode_def nth_Cons split: nat.splits)

lemma ex_node_ready: "cask_ready fl fid t exNode = (\<not> fl (CreateCask t))"
  by (simp add: cask_ready_def exNode_def)

lemma ex_mixed_ready:
  "t < 3 \<Longrightarrow> cask_ready fl fid t ([exNode, exNode7, exNode] ! t) = (\<not> fl (CreateCask t))"
  by (auto simp: cask_ready_def exNode_def exNode7_def nth_Cons split: nat.splits)

lemma ex_exShards:
  "exShards ! 0 = [0x31, 0x32, 0x33]" "exShards ! 1 = [0x34, 0x35, 0x36]"
  "exShards ! 2 = [0x05, 0x07, 0x05]" "length exShards = 3"
  by (simp_all add: exShards_def)

lemma ex_Put_ok: "fst (DagNode_Put exExt exDagNode exBlock) = None"
proof -
  have nofail: "\<not> dnFails exDagNode DbPut"
    by (simp add: exDagNode_def)
  have "\<forall>t<length (nodes exDagNode). \<not> dnFails exDagNode (CaskPut (0 + t))
          \<and> cask_ready (dnFails exDagNode) (ChecksumIEEE (bytes_of (sha256String (Cid exBlock))) mod 256)
               (0 + t) (nodes exDagNode ! t)"
    by (simp add: exDagNode_def ex_nodes_ready)
  moreover have "0 + length (nodes exDagNode) \<le> length exShards"
    by (simp add: exDagNode_def exShards_def)
  ultimately have "fst (put_loop (dnFails exDagNode) (sha256String (Cid exBlock))
      (ChecksumIEEE (bytes_of (sha256String (Cid exBlock))) mod 256) exShards 0 (nodes exDagNode)) = None"
    by (rule put_loop_ok)
  then show ?thesis
    by (simp add: DagNode_Put_unfold [OF nofail ex_NewErasure ex_EncodeData ex_fileID])
qed

lemma ex_Full_facts:
  "\<not> dnFails exDagNodeFull DbPut"
  "NewErasure (dataBlocks exDagNodeFull) (parityBlocks exDagNodeFull) (int (length (RawData exBlock))) = Inr exEnc"
  "fileID exDagNodeFull key = Inr (ChecksumIEEE (bytes_of key) mod 256)"
  by (simp_all add: exDagNodeFull_def NewErasure_def exDagNode_def exBlock_def exEnc_def
      fileID_def exNode_def)

lemma ex_NoCask_facts:
  "\<not> dnFails exDagNodeNoCask DbPut"
  "NewErasure (dataBlocks exDagNodeNoCask) (parityBlocks exDagNodeNoCask) (int (length (RawData exBlock))) = Inr exEnc"
  "fileID exDagNodeNoCask key = Inr (ChecksumIEEE (bytes_of key) mod 256)"
  by (simp_all add: exDagNodeNoCask_def NewErasure_def exDagNode_def exBlock_def exEnc_def
      fileID_def exNode_def)

lemma ex_Mixed_facts:
  "\<not> dnFails exDagNodeMixed DbPut"
  "NewErasure (dataBlocks exDagNodeMixed) (parityBlocks exDagNodeMixed) (int (length (RawData exBlock))) = Inr exEnc"
  "fileID exDagNodeMixed key = Inr (ChecksumIEEE (bytes_of key) mod 256)"
  by (simp_all add: exDagNodeMixed_def NewErasure_def exDagNode_def exBlock_def exEnc_def
      fileID_def exNode_def)

lemma ex_Full_loop:
  "fst (put_loop (dnFails exDagNodeFull) key fid exShards 0 (nodes exDagNodeFull)) = Some ErrNoSpace
   \<and> length (snd (put_loop (dnFails exDagNodeFull) key fid exShards 0 (nodes exDagNodeFull)))
       = length (nodes exDagNodeFull)
   \<and> (\<forall>t<2. member_holds (snd (put_loop (dnFails exDagNodeFull) key fid exShards 0
                                  (nodes exDagNodeFull)) ! t) fid key (exShards ! (0 + t)))"
proof (rule put_loop_first_failure)
  show "2 < length (nodes exDagNodeFull)"
    by (simp add: exDagNodeFull_def exDagNode_def)
  show "0 + 2 < length exShards"
    by (simp add: exShards_def)
  show "dnFails exDagNodeFull (CaskPut (0 + 2))"
    by (simp add: exDagNodeFull_def)
  show "\<forall>t<2. \<not> dnFails exDagNodeFull (CaskPut (0 + t))"
    by (simp add: exDagNodeFull_def)
  show "\<forall>t\<le>2. cask_ready (dnFails exDagNodeFull) fid (0 + t) (nodes exDagNodeFull ! t)"
    by (simp add: exDagNodeFull_def exDagNode_def ex_nodes_ready)
qed

text \<open>
  The shard key of the sample block and its cask, computed step by step: the padded
  message, its sixteen words, the message schedule, the 64 rounds, the digest; then the
  CRC-32 of the key, eight bytes at a time.
\<close>

lemma cid_pad:
  "sha256_pad (bytes_of ''QmXsMQRrggM1pD2axFoscGSrANph6f1nsQm6oFm3AHzECy'') =
     [81, 109, 88, 115, 77, 81, 82, 114, 103, 103, 77, 49, 112, 68, 50, 97,
     120, 70, 111, 115, 99, 71, 83, 114, 65, 78, 112, 104, 54, 102, 49, 110,
     115, 81, 109, 54, 111, 70, 109, 51, 65, 72, 122, 69, 67, 121, 128, 0,
     0, 0, 0, 0, 0, 0, 0, 0, 0, 0, 0, 0, 0, 0, 1, 112]"
  by code_simp

lemma cid_words:
  "map be32 (chunks 16 4
     [81, 109, 88, 115, 77, 81, 82, 114, 103, 103, 77, 49, 112, 68, 50, 97,
     120, 70, 111, 115, 99, 71, 83, 114, 65, 78, 112, 104, 54, 102, 49, 110,
     115, 81, 109, 54, 111, 70, 109, 51, 65, 72, 122, 69, 67, 121, 128, 0,
     0, 0, 0, 0, 0, 0, 0, 0, 0, 0, 0, 0, 0, 0, 1, 112]) =
     [1366120563, 1297175154, 1734823217, 1883517537, 2017881971, 1665618802, 1095659624, 912666990,
     1934716214, 1866886451, 1095268933, 1132036096, 0, 0, 0, 368]"
  by code_simp

lemma cid_schedule:
  "schedule 48
     [1366120563, 1297175154, 1734823217, 1883517537, 2017881971, 1665618802, 1095659624, 912666990,
     1934716214, 1866886451, 1095268933, 1132036096, 0, 0, 0, 368] =
     [1366120563, 1297175154, 1734823217, 1883517537, 2017881971, 1665618802,
     1095659624, 912666990, 1934716214, 1866886451, 1095268933, 1132036096,
     0, 0, 0, 368, 2053103972, 1285442460,
     2010203398, 3474414032, 1056402639, 4024062447, 4097556268, 1299784444,
     1488535028, 948269954, 849096951, 2586863325, 2386831872, 869249395,
     3191401224, 3342510415, 3214803594, 3561908801, 1095143915, 2554991617,
     1677638873, 2673764405, 4277178350, 3006141775, 3804098416, 637164732,
     3340374532, 2118400784, 2237167070, 170862206, 3541538342, 2753117197,
     590150113, 3488050260, 948501634, 2328101840, 3001381570, 3590271731,
     3329225909, 3686595931, 2742997531, 3584039542, 657760445, 4030768442,
     1416026925, 3371350625, 2793613705, 1245871605]"
  by code_simp

lemma cid_rounds:
  "foldl sha256_round
     (0x6A09E667, 0xBB67AE85, 0x3C6EF372, 0xA54FF53A, 0x510E527F, 0x9B05688C, 0x1F83D9AB, 0x5BE0CD19)
     (zip sha256_K
     [1366120563, 1297175154, 1734823217, 1883517537, 2017881971, 1665618802,
     1095659624, 912666990, 1934716214, 1866886451, 1095268933, 1132036096,
     0, 0, 0, 368, 2053103972, 1285442460,
     2010203398, 3474414032, 1056402639, 4024062447, 4097556268, 1299784444,
     1488535028, 948269954, 849096951, 2586863325, 2386831872, 869249395,
     3191401224, 3342510415, 3214803594, 3561908801, 1095143915, 2554991617,
     1677638873, 2673764405, 4277178350, 3006141775, 3804098416, 637164732,
     3340374532, 2118400784, 2237167070, 170862206, 3541538342, 2753117197,
     590150113, 3488050260, 948501634, 2328101840, 3001381570, 3590271731,
     3329225909, 3686595931, 2742997531, 3584039542, 657760445, 4030768442,
     1416026925, 3371350625, 2793613705, 1245871605]) =
     (4110217352, 3804506502, 3777846808, 1856718555, 3288885991, 3160269918, 1901310891, 3920489849)"
  by code_simp

lemma cid_digest:
  "hex (concat (map be_bytes32
     [1594283759, 2653673483, 496783754, 335232021,
     353811814, 1466125546, 2430045526, 1166981778])) =
     ''5f06d6ef9e2bd80b1d9c518a13fb3c151516bd6657634cea90d78d56458eba92''"
  by code_simp

lemma cid_sha256:
  "sha256String ''QmXsMQRrggM1pD2axFoscGSrANph6f1nsQm6oFm3AHzECy'' = ''5f06d6ef9e2bd80b1d9c518a13fb3c151516bd6657634cea90d78d56458eba92''"
proof -
  have blocks: "chunks (length (sha256_pad (bytes_of ''QmXsMQRrggM1pD2axFoscGSrANph6f1nsQm6oFm3AHzECy'')) div 64) 64 (sha256_pad (bytes_of ''QmXsMQRrggM1pD2axFoscGSrANph6f1nsQm6oFm3AHzECy''))
                  = [sha256_pad (bytes_of ''QmXsMQRrggM1pD2axFoscGSrANph6f1nsQm6oFm3AHzECy'')]"
    unfolding cid_pad by code_simp
  have block: "sha256_block sha256_H0 (sha256_pad (bytes_of ''QmXsMQRrggM1pD2axFoscGSrANph6f1nsQm6oFm3AHzECy'')) =
     [1594283759, 2653673483, 496783754, 335232021,
     353811814, 1466125546, 2430045526, 1166981778]"
    unfolding cid_pad by (simp add: sha256_H0_def cid_words cid_schedule cid_rounds)
  have "Sum256 (bytes_of ''QmXsMQRrggM1pD2axFoscGSrANph6f1nsQm6oFm3AHzECy'') = concat (map be_bytes32
     [1594283759, 2653673483, 496783754, 335232021,
     353811814, 1466125546, 2430045526, 1166981778])"
    unfolding Sum256_def Let_def blocks foldl.simps block by (rule refl)
  then show ?thesis
    unfolding sha256String_def by (simp only: cid_digest)
qed

lemma key_bytes:
  "bytes_of ''5f06d6ef9e2bd80b1d9c518a13fb3c151516bd6657634cea90d78d56458eba92'' =
     [53, 102, 48, 54, 100, 54, 101, 102, 57, 101, 50, 98, 100, 56, 48, 98,
      49, 100, 57, 99, 53, 49, 56, 97, 49, 51, 102, 98, 51, 99, 49, 53,
      49, 53, 49, 54, 98, 100, 54, 54, 53, 55, 54, 51, 52, 99, 101, 97,
      57, 48, 100, 55, 56, 100, 53, 54, 52, 53, 56, 101, 98, 97, 57, 50]"
  by code_simp

lemma key_crc0:
  "foldl crc_update 4294967295 [53, 102, 48, 54, 100, 54, 101, 102] = 3178556450"
  by code_simp

lemma key_crc1:
  "foldl crc_update 3178556450 [57, 101, 50, 98, 100, 56, 48, 98] = 205349214"
  by code_simp

lemma key_crc2:
  "foldl crc_update 205349214 [49, 100, 57, 99, 53, 49, 56, 97] = 343299387"
  by code_simp

lemma key_crc3:
  "foldl crc_update 343299387 [49, 51, 102, 98, 51, 99, 49, 53] = 872649540"
  by code_simp

lemma key_crc4:
  "foldl crc_update 872649540 [49, 53, 49, 54, 98, 100, 54, 54] = 1810814206"
  by code_simp

lemma key_crc5:
  "foldl crc_update 1810814206 [53, 55, 54, 51, 52, 99, 101, 97] = 4100794624"
  by code_simp

lemma key_crc6:
  "foldl crc_update 4100794624 [57, 48, 100, 55, 56, 100, 53, 54] = 4139038229"
  by code_simp

lemma key_crc7:
  "foldl crc_update 4139038229 [52, 53, 56, 101, 98, 97, 57, 50] = 1839159649"
  by code_simp

lemma key_crc:
  "ChecksumIEEE (bytes_of ''5f06d6ef9e2bd80b1d9c518a13fb3c151516bd6657634cea90d78d56458eba92'') = 2455807646"
proof -
  have split: "[53, 102, 48, 54, 100, 54, 101, 102, 57, 101, 50, 98, 100, 56, 48, 98,
      49, 100, 57, 99, 53, 49, 56, 97, 49, 51, 102, 98, 51, 99, 49, 53,
      49, 53, 49, 54, 98, 100, 54, 54, 53, 55, 54, 51, 52, 99, 101, 97,
      57, 48, 100, 55, 56, 100, 53, 54, 52, 53, 56, 101, 98, 97, 57, 50] =
      [53, 102, 48, 54, 100, 54, 101, 102] @
      [57, 101, 50, 98, 100, 56, 48, 98] @
      [49, 100, 57, 99, 53, 49, 56, 97] @
      [49, 51, 102, 98, 51, 99, 49, 53] @
      [49, 53, 49, 54, 98, 100, 54, 54] @
      [53, 55, 54, 51, 52, 99, 101, 97] @
      [57, 48, 100, 55, 56, 100, 53, 54] @
      [52, 53, 56, 101, 98, 97, 57, 50]"
    by simp
  have init: "NOT 0 = (4294967295 :: 32 word)"
    by simp
  have "foldl crc_update (NOT 0) (bytes_of ''5f06d6ef9e2bd80b1d9c518a13fb3c151516bd6657634cea90d78d56458eba92'') = 1839159649"
    unfolding key_bytes split init foldl_append key_crc0 key_crc1 key_crc2 key_crc3 key_crc4 key_crc5 key_crc6 key_crc7
    by (rule refl)
  then show ?thesis
    by (simp add: ChecksumIEEE_def)
qed

lemma ex_keyCode:
  "sha256String (Cid exBlock) = ''5f06d6ef9e2bd80b1d9c518a13fb3c151516bd6657634cea90d78d56458eba92''"
  by (simp add: exBlock_def cid_sha256)

lemma ex_cask:
  "ChecksumIEEE (bytes_of (sha256String (Cid exBlock))) mod 256 = 158"
  by (simp add: ex_keyCode key_crc)

lemma ex_Mixed_Put:
  "fst (DagNode_Put exExt exDagNodeMixed exBlock) = None
   \<and> member_holds (nodes (snd (DagNode_Put exExt exDagNodeMixed exBlock)) ! 1)
        (ChecksumIEEE (bytes_of (sha256String (Cid exBlock))) mod 256)
        (sha256String (Cid exBlock)) (exShards ! 1)
   \<and> caskMap (nodes (snd (DagNode_Put exExt exDagNodeMixed exBlock)) ! 1) 5 = None"
proof -
  let ?key = "sha256String (Cid exBlock)"
  let ?fid = "ChecksumIEEE (bytes_of ?key) mod 256"
  let ?L = "put_loop (dnFails exDagNodeMixed) ?key ?fid exShards 0 (nodes exDagNodeMixed)"
  note unf = DagNode_Put_unfold [OF ex_Mixed_facts(1) ex_Mixed_facts(2) ex_EncodeData ex_Mixed_facts(3)]
  have "\<forall>t<length (nodes exDagNodeMixed). \<not> dnFails exDagNodeMixed (CaskPut (0 + t))
          \<and> cask_ready (dnFails exDagNodeMixed) ?fid (0 + t) (nodes exDagNodeMixed ! t)"
    by (simp add: exDagNodeMixed_def exDagNode_def ex_mixed_ready)
  moreover have "0 + length (nodes exDagNodeMixed) \<le> length exShards"
    by (simp add: exDagNodeMixed_def exDagNode_def exShards_def)
  ultimately have l: "fst ?L = None"
    by (rule put_loop_ok)
  then have "?L = (None, snd ?L)"
    by (simp add: prod_eq_iff)
  from put_loop_success [OF this]
  have "\<forall>j<length (nodes exDagNodeMixed). member_holds (snd ?L ! j) ?fid ?key (exShards ! (0 + j))"
    by simp
  moreover have "1 < length (nodes exDagNodeMixed)"
    by (simp add: exDagNodeMixed_def)
  ultimately have h: "member_holds (snd ?L ! 1) ?fid ?key (exShards ! 1)"
    by fastforce
  have "(5 :: 32 word) \<noteq> ?fid"
    by (simp add: ex_cask)
  from put_loop_other_casks [OF this, of "dnFails exDagNodeMixed" ?key exShards 0 "nodes exDagNodeMixed"]
  have "map (\<lambda>n. caskMap n 5) (snd ?L) ! 1 = map (\<lambda>n. caskMap n 5) (nodes exDagNodeMixed) ! 1"
    by simp
  moreover have "length (snd ?L) = 3"
    unfolding length_put_loop by (simp add: exDagNodeMixed_def)
  ultimately have o: "caskMap (snd ?L ! 1) 5 = None"
    by (simp add: exDagNodeMixed_def exNode7_def)
  from l h o show ?thesis
    by (simp add: unf)
qed

subsection \<open>Failure of a member during Put\<close>

text \<open>
  Claim C2 fails as stated. On the sample DagNode whose third member's disk is full, \<open>Put\<close>
  of the block "123456" returns the error of that member, and afterwards the first two
  members still hold their shards in cask 158 under the shard key and \<open>db\<close> still holds
  the size 6: no Delete was issued and nothing was rolled back.
\<close>

theorem Put_failure_leaves_shards:
  "fst (DagNode_Put exExt exDagNodeFull exBlock) = Some ErrNoSpace
   \<and> db (snd (DagNode_Put exExt exDagNodeFull exBlock)) (Cid exBlock) = Some 6
   \<and> member_holds (nodes (snd (DagNode_Put exExt exDagNodeFull exBlock)) ! 0) 158
        ''5f06d6ef9e2bd80b1d9c518a13fb3c151516bd6657634cea90d78d56458eba92'' [0x31, 0x32, 0x33]
   \<and> member_holds (nodes (snd (DagNode_Put exExt exDagNodeFull exBlock)) ! 1) 158
        ''5f06d6ef9e2bd80b1d9c518a13fb3c151516bd6657634cea90d78d56458eba92'' [0x34, 0x35, 0x36]"
proof -
  let ?key = "sha256String (Cid exBlock)"
  let ?fid = "ChecksumIEEE (bytes_of ?key) mod 256"
  note loop = ex_Full_loop [of ?key ?fid]
  from loop have h0: "member_holds (snd (put_loop (dnFails exDagNodeFull) ?key ?fid exShards 0
                                  (nodes exDagNodeFull)) ! 0) ?fid ?key (exShards ! (0 + 0))"
    by (metis zero_less_numeral)
  from loop have h1: "member_holds (snd (put_loop (dnFails exDagNodeFull) ?key ?fid exShards 0
                                  (nodes exDagNodeFull)) ! 1) ?fid ?key (exShards ! (0 + 1))"
    by (metis one_less_numeral_iff semiring_norm(76))
  note unf = DagNode_Put_unfold [OF ex_Full_facts(1) ex_Full_facts(2) ex_EncodeData ex_Full_facts(3)]
  have sh: "exShards ! (0 + 0) = [0x31, 0x32, 0x33]" "exShards ! (0 + 1) = [0x34, 0x35, 0x36]"
    by (simp_all add: exShards_def)
  have len: "int (length (RawData exBlock)) = 6"
    by (simp add: exBlock_def)
  have r1: "fst (DagNode_Put exExt exDagNodeFull exBlock) = Some ErrNoSpace"
    using loop by (simp add: unf)
  have r2: "db (snd (DagNode_Put exExt exDagNodeFull exBlock)) (Cid exBlock) = Some 6"
    by (simp add: unf len)
  have r3: "member_holds (nodes (snd (DagNode_Put exExt exDagNodeFull exBlock)) ! 0) ?fid ?key
              [0x31, 0x32, 0x33]"
    using h0 [unfolded sh] by (simp add: unf)
  have r4: "member_holds (nodes (snd (DagNode_Put exExt exDagNodeFull exBlock)) ! 1) ?fid ?key
              [0x34, 0x35, 0x36]"
    using h1 [unfolded sh] by (simp add: unf)
  from r1 r2 r3 [unfolded ex_cask] r4 [unfolded ex_cask] show ?thesis
    by (simp only: ex_keyCode simp_thms)
qed

text \<open>
  Claim C2, amended. \<open>Put\<close> returns success only if the shard write of every member
  succeeded, and then member \<open>i\<close> holds shard \<open>i\<close> under the shard key; it does succeed
  when the size entry can be written and no member fails. When member \<open>j\<close> is the first
  to fail, by the creation of its cask or by its shard write, \<open>Put\<close> stops at that
  member and returns its error (the error of the shard write when the member has or gets
  its cask): member \<open>j\<close> receives no shard, the members after \<open>j\<close> are not touched, and
  the number of members stays. \<open>Put\<close> issues no Delete and rolls nothing back: the
  members before \<open>j\<close> keep the shards just written and the size entry written to \<open>db\<close> at
  the start stays. When that first write to \<open>db\<close> fails, \<open>Put\<close> returns its error with
  the state unchanged.
\<close>

theorem Put_all_or_first_failure:
  assumes enc: "NewErasure (dataBlocks d) (parityBlocks d) (int (length (RawData block))) = Inr enc"
    and sh: "EncodeData x enc (RawData block) = Inr shards"
    and fid: "fileID d (sha256String (Cid block)) = Inr fid"
  shows "(fst (DagNode_Put x d block) = None \<longrightarrow>
            (\<forall>i<length (nodes d). \<not> dnFails d (CaskPut i)
               \<and> member_holds (nodes (snd (DagNode_Put x d block)) ! i) fid
                    (sha256String (Cid block)) (shards ! i)))
         \<and> (\<not> dnFails d DbPut \<and> length (nodes d) \<le> length shards
              \<and> (\<forall>t<length (nodes d). \<not> member_fails (dnFails d) fid t (nodes d ! t)) \<longrightarrow>
            fst (DagNode_Put x d block) = None)
         \<and> (\<not> dnFails d DbPut \<and> j < length (nodes d) \<and> j < length shards
              \<and> member_fails (dnFails d) fid j (nodes d ! j)
              \<and> (\<forall>t<j. \<not> member_fails (dnFails d) fid t (nodes d ! t)) \<longrightarrow>
            fst (DagNode_Put x d block) = Some (member_error (dnFails d) fid j (nodes d ! j))
            \<and> (cask_ready (dnFails d) fid j (nodes d ! j) \<longrightarrow>
                 fst (DagNode_Put x d block) = Some ErrNoSpace)
            \<and> db (snd (DagNode_Put x d block)) (Cid block) = Some (int (length (RawData block)))
            \<and> length (nodes (snd (DagNode_Put x d block))) = length (nodes d)
            \<and> (\<forall>t<j. member_holds (nodes (snd (DagNode_Put x d block)) ! t) fid
                         (sha256String (Cid block)) (shards ! t))
            \<and> (\<forall>f k v. member_holds (nodes (snd (DagNode_Put x d block)) ! j) f k v
                         = member_holds (nodes d ! j) f k v)
            \<and> (\<forall>t. j < t \<and> t < length (nodes d) \<longrightarrow>
                   nodes (snd (DagNode_Put x d block)) ! t = nodes d ! t))
         \<and> (dnFails d DbPut \<longrightarrow> DagNode_Put x d block = (Some ErrInternal, d))"
proof -
  let ?key = "sha256String (Cid block)"
  let ?P = "DagNode_Put x d block"
  have a: "fst ?P = None \<longrightarrow>
            (\<forall>i<length (nodes d). \<not> dnFails d (CaskPut i)
               \<and> member_holds (nodes (snd ?P) ! i) fid ?key (shards ! i))"
  proof
    assume ok: "fst ?P = None"
    then have "?P = (None, snd ?P)"
      by (simp add: prod_eq_iff)
    from DagNode_Put_success [OF this] enc sh fid obtain ns where
      pl: "put_loop (dnFails d) ?key fid shards 0 (nodes d) = (None, ns)" and
      d': "snd ?P = d\<lparr>db := (db d)(Cid block \<mapsto> int (length (RawData block))), nodes := ns\<rparr>"
      by auto
    from put_loop_success [OF pl] d'
    show "\<forall>i<length (nodes d). \<not> dnFails d (CaskPut i)
          \<and> member_holds (nodes (snd ?P) ! i) fid ?key (shards ! i)"
      by simp
  qed
  have b: "\<not> dnFails d DbPut \<and> length (nodes d) \<le> length shards
              \<and> (\<forall>t<length (nodes d). \<not> member_fails (dnFails d) fid t (nodes d ! t)) \<longrightarrow>
            fst ?P = None"
  proof
    assume h: "\<not> dnFails d DbPut \<and> length (nodes d) \<le> length shards
              \<and> (\<forall>t<length (nodes d). \<not> member_fails (dnFails d) fid t (nodes d ! t))"
    then have nofail: "\<not> dnFails d DbPut" by simp
    note unf = DagNode_Put_unfold [OF nofail enc sh fid]
    from h have "\<forall>t<length (nodes d). \<not> dnFails d (CaskPut (0 + t))
                    \<and> cask_ready (dnFails d) fid (0 + t) (nodes d ! t)"
      by (simp add: member_fails_def)
    moreover from h have "0 + length (nodes d) \<le> length shards"
      by simp
    ultimately have "fst (put_loop (dnFails d) ?key fid shards 0 (nodes d)) = None"
      by (rule put_loop_ok)
    then show "fst ?P = None"
      by (simp add: unf)
  qed
  have c: "\<not> dnFails d DbPut \<and> j < length (nodes d) \<and> j < length shards
              \<and> member_fails (dnFails d) fid j (nodes d ! j)
              \<and> (\<forall>t<j. \<not> member_fails (dnFails d) fid t (nodes d ! t)) \<longrightarrow>
            fst ?P = Some (member_error (dnFails d) fid j (nodes d ! j))
            \<and> (cask_ready (dnFails d) fid j (nodes d ! j) \<longrightarrow> fst ?P = Some ErrNoSpace)
            \<and> db (snd ?P) (Cid block) = Some (int (length (RawData block)))
            \<and> length (nodes (snd ?P)) = length (nodes d)
            \<and> (\<forall>t<j. member_holds (nodes (snd ?P) ! t) fid ?key (shards ! t))
            \<and> (\<forall>f k v. member_holds (nodes (snd ?P) ! j) f k v = member_holds (nodes d ! j) f k v)
            \<and> (\<forall>t. j < t \<and> t < length (nodes d) \<longrightarrow> nodes (snd ?P) ! t = nodes d ! t)"
  proof
    assume h: "\<not> dnFails d DbPut \<and> j < length (nodes d) \<and> j < length shards
              \<and> member_fails (dnFails d) fid j (nodes d ! j)
              \<and> (\<forall>t<j. \<not> member_fails (dnFails d) fid t (nodes d ! t))"
    then have nofail: "\<not> dnFails d DbPut" by simp
    note unf = DagNode_Put_unfold [OF nofail enc sh fid]
    let ?L = "put_loop (dnFails d) ?key fid shards 0 (nodes d)"
    from h have p1: "j < length (nodes d)" and p2: "0 + j < length shards"
      and p3: "\<forall>t<j. \<not> dnFails d (CaskPut (0 + t)) \<and> cask_ready (dnFails d) fid (0 + t) (nodes d ! t)"
      and p4: "member_fails (dnFails d) fid (0 + j) (nodes d ! j)"
      by (simp_all add: member_fails_def)
    note loop = put_loop_stops [OF p1 p2 p3 p4, of ?key]
    from loop have l1: "fst ?L = Some (member_error (dnFails d) fid j (nodes d ! j))"
      by simp
    from loop have l2: "length (snd ?L) = length (nodes d)"
      by simp
    from loop have l3: "\<forall>t<j. member_holds (snd ?L ! t) fid ?key (shards ! t)"
      by simp
    from loop have l4: "\<forall>f k v. member_holds (snd ?L ! j) f k v = member_holds (nodes d ! j) f k v"
      by simp
    from loop have l5: "\<forall>t. j < t \<and> t < length (nodes d) \<longrightarrow> snd ?L ! t = nodes d ! t"
      by simp
    have e: "cask_ready (dnFails d) fid j (nodes d ! j) \<longrightarrow> fst ?P = Some ErrNoSpace"
      using l1 by (simp add: unf member_error_NoSpace)
    show "fst ?P = Some (member_error (dnFails d) fid j (nodes d ! j))
            \<and> (cask_ready (dnFails d) fid j (nodes d ! j) \<longrightarrow> fst ?P = Some ErrNoSpace)
            \<and> db (snd ?P) (Cid block) = Some (int (length (RawData block)))
            \<and> length (nodes (snd ?P)) = length (nodes d)
            \<and> (\<forall>t<j. member_holds (nodes (snd ?P) ! t) fid ?key (shards ! t))
            \<and> (\<forall>f k v. member_holds (nodes (snd ?P) ! j) f k v = member_holds (nodes d ! j) f k v)
            \<and> (\<forall>t. j < t \<and> t < length (nodes d) \<longrightarrow> nodes (snd ?P) ! t = nodes d ! t)"
      using l1 l2 l3 l4 l5 e by (simp add: unf)
  qed
  have dd: "dnFails d DbPut \<longrightarrow> ?P = (Some ErrInternal, d)"
    by (simp add: DagNode_Put_def db_Put_def)
  from a b c dd show ?thesis
    by (intro conjI)
qed

text \<open>
  C2, amended, on the sample DagNode: without a fault; with the third member's disk full;
  and with the second member unable to create its cask, where the third member stays as
  it was.
\<close>

theorem Put_all_or_first_failure_witness:
  "fst (DagNode_Put exExt exDagNode exBlock) = None
   \<and> member_holds (nodes (snd (DagNode_Put exExt exDagNode exBlock)) ! 2) 158 ''5f06d6ef9e2bd80b1d9c518a13fb3c151516bd6657634cea90d78d56458eba92'' [0x05, 0x07, 0x05]
   \<and> fst (DagNode_Put exExt exDagNodeFull exBlock) = Some ErrNoSpace
   \<and> db (snd (DagNode_Put exExt exDagNodeFull exBlock)) (Cid exBlock) = Some 6
   \<and> member_holds (nodes (snd (DagNode_Put exExt exDagNodeFull exBlock)) ! 1) 158 ''5f06d6ef9e2bd80b1d9c518a13fb3c151516bd6657634cea90d78d56458eba92'' [0x34, 0x35, 0x36]
   \<and> \<not> member_holds (nodes (snd (DagNode_Put exExt exDagNodeFull exBlock)) ! 2) 158 ''5f06d6ef9e2bd80b1d9c518a13fb3c151516bd6657634cea90d78d56458eba92'' [0x05, 0x07, 0x05]
   \<and> fst (DagNode_Put exExt exDagNodeNoCask exBlock) = Some ErrCreateCask
   \<and> member_holds (nodes (snd (DagNode_Put exExt exDagNodeNoCask exBlock)) ! 0) 158 ''5f06d6ef9e2bd80b1d9c518a13fb3c151516bd6657634cea90d78d56458eba92'' [0x31, 0x32, 0x33]
   \<and> \<not> member_holds (nodes (snd (DagNode_Put exExt exDagNodeNoCask exBlock)) ! 1) 158 ''5f06d6ef9e2bd80b1d9c518a13fb3c151516bd6657634cea90d78d56458eba92'' [0x34, 0x35, 0x36]
   \<and> nodes (snd (DagNode_Put exExt exDagNodeNoCask exBlock)) ! 2 = exNode"
proof -
  let ?key = "sha256String (Cid exBlock)"
  let ?fid = "ChecksumIEEE (bytes_of ?key) mod 256"
  note ok = Put_all_or_first_failure [OF ex_NewErasure ex_EncodeData ex_fileID, of 0]
  note full = Put_all_or_first_failure [OF ex_Full_facts(2) ex_EncodeData ex_Full_facts(3), of 2]
  note nocask = Put_all_or_first_failure [OF ex_NoCask_facts(2) ex_EncodeData ex_NoCask_facts(3), of 1]
  have len: "int (length (RawData exBlock)) = 6"
    by (simp add: exBlock_def)
  have empty: "\<And>f k v. \<not> member_holds exNode f k v"
    by (simp add: member_holds_def exNode_def)
  have pre0: "\<not> dnFails exDagNode DbPut \<and> length (nodes exDagNode) \<le> length exShards
      \<and> (\<forall>t<length (nodes exDagNode). \<not> member_fails (dnFails exDagNode) ?fid t (nodes exDagNode ! t))"
    by (simp add: exDagNode_def exShards_def member_fails_def ex_nodes_ready)
  with ok have a1: "fst (DagNode_Put exExt exDagNode exBlock) = None"
    by blast
  have n: "(2::nat) < length (nodes exDagNode)"
    by (simp add: exDagNode_def)
  from ok a1 n
  have a2: "member_holds (nodes (snd (DagNode_Put exExt exDagNode exBlock)) ! 2) ?fid ?key (exShards ! 2)"
    by blast
  have pre2: "\<not> dnFails exDagNodeFull DbPut \<and> 2 < length (nodes exDagNodeFull) \<and> 2 < length exShards
      \<and> member_fails (dnFails exDagNodeFull) ?fid 2 (nodes exDagNodeFull ! 2)
      \<and> (\<forall>t<2. \<not> member_fails (dnFails exDagNodeFull) ?fid t (nodes exDagNodeFull ! t))"
    by (simp add: exDagNodeFull_def exDagNode_def exShards_def member_fails_def ex_nodes_ready)
  have ready2: "cask_ready (dnFails exDagNodeFull) ?fid 2 (nodes exDagNodeFull ! 2)"
    using ex_nodes_ready [of 2 "dnFails exDagNodeFull" ?fid]
    by (simp add: exDagNodeFull_def exDagNode_def)
  have node2: "nodes exDagNodeFull ! 2 = exNode"
    by (simp add: exDagNodeFull_def exDagNode_def)
  from full pre2 ready2 have b1: "fst (DagNode_Put exExt exDagNodeFull exBlock) = Some ErrNoSpace"
    by blast
  from full pre2 have b2: "db (snd (DagNode_Put exExt exDagNodeFull exBlock)) (Cid exBlock)
         = Some (int (length (RawData exBlock)))"
    by blast
  from full pre2 have "\<forall>t<2. member_holds (nodes (snd (DagNode_Put exExt exDagNodeFull exBlock)) ! t)
       ?fid ?key (exShards ! t)"
    by blast
  then have b3: "member_holds (nodes (snd (DagNode_Put exExt exDagNodeFull exBlock)) ! 1)
       ?fid ?key (exShards ! 1)"
    by simp
  from full pre2 have "\<forall>f k v. member_holds (nodes (snd (DagNode_Put exExt exDagNodeFull exBlock)) ! 2) f k v
       = member_holds (nodes exDagNodeFull ! 2) f k v"
    by blast
  then have b4: "\<not> member_holds (nodes (snd (DagNode_Put exExt exDagNodeFull exBlock)) ! 2)
       ?fid ?key (exShards ! 2)"
    by (simp add: node2 empty)
  have pre1: "\<not> dnFails exDagNodeNoCask DbPut \<and> 1 < length (nodes exDagNodeNoCask) \<and> 1 < length exShards
      \<and> member_fails (dnFails exDagNodeNoCask) ?fid 1 (nodes exDagNodeNoCask ! 1)
      \<and> (\<forall>t<1. \<not> member_fails (dnFails exDagNodeNoCask) ?fid t (nodes exDagNodeNoCask ! t))"
    by (simp add: exDagNodeNoCask_def exDagNode_def exShards_def member_fails_def ex_node_ready)
  have err1: "member_error (dnFails exDagNodeNoCask) ?fid 1 (nodes exDagNodeNoCask ! 1) = ErrCreateCask"
    by (simp add: exDagNodeNoCask_def exDagNode_def member_error_def exNode_def)
  have node1: "nodes exDagNodeNoCask ! 1 = exNode" "nodes exDagNodeNoCask ! 2 = exNode"
    "length (nodes exDagNodeNoCask) = 3"
    by (simp_all add: exDagNodeNoCask_def exDagNode_def)
  from nocask pre1 have "fst (DagNode_Put exExt exDagNodeNoCask exBlock)
       = Some (member_error (dnFails exDagNodeNoCask) ?fid 1 (nodes exDagNodeNoCask ! 1))"
    by blast
  then have c1: "fst (DagNode_Put exExt exDagNodeNoCask exBlock) = Some ErrCreateCask"
    by (simp only: err1)
  from nocask pre1 have "\<forall>t<1. member_holds (nodes (snd (DagNode_Put exExt exDagNodeNoCask exBlock)) ! t)
       ?fid ?key (exShards ! t)"
    by blast
  then have c2: "member_holds (nodes (snd (DagNode_Put exExt exDagNodeNoCask exBlock)) ! 0)
       ?fid ?key (exShards ! 0)"
    by simp
  from nocask pre1 have "\<forall>f k v. member_holds (nodes (snd (DagNode_Put exExt exDagNodeNoCask exBlock)) ! 1) f k v
       = member_holds (nodes exDagNodeNoCask ! 1) f k v"
    by blast
  then have "member_holds (nodes (snd (DagNode_Put exExt exDagNodeNoCask exBlock)) ! 1)
       ?fid ?key (exShards ! 1) = member_holds (nodes exDagNodeNoCask ! 1) ?fid ?key (exShards ! 1)"
    by (elim allE)
  then have c3: "\<not> member_holds (nodes (snd (DagNode_Put exExt exDagNodeNoCask exBlock)) ! 1)
       ?fid ?key (exShards ! 1)"
    unfolding node1 by (simp only: empty simp_thms)
  from nocask pre1 have "\<forall>t. 1 < t \<and> t < length (nodes exDagNodeNoCask) \<longrightarrow>
       nodes (snd (DagNode_Put exExt exDagNodeNoCask exBlock)) ! t = nodes exDagNodeNoCask ! t"
    by blast
  then have c4: "nodes (snd (DagNode_Put exExt exDagNodeNoCask exBlock)) ! 2 = exNode"
    by (simp add: node1)
  note h = a2 b3 b4 c2 c3
  note h' = h [unfolded ex_cask]
  note h'' = h' [unfolded ex_keyCode ex_exShards]
  from a1 b1 b2 [unfolded len] c1 c4 h'' show ?thesis
    by (simp only: simp_thms)
qed

subsection \<open>Round trip and size\<close>

text \<open>
  Claim C3. On a DagNode of \<open>n = k + m\<close> members, if \<open>Put\<close> of a block succeeded then
  \<open>Get\<close> of its cid in the resulting state returns the block with the original payload,
  byte for byte, provided the reads of \<open>Get\<close> do not fail and the cid is the hash of the
  payload. The original size is stored in \<open>db\<close> and trims the padding; encoding followed
  by decoding gives back the zero-padded payload in the data shards.
\<close>

theorem Put_Get_roundtrip:
  assumes "DagNode_Put x d block = (None, d')"
    and "int (length (nodes d)) = dataBlocks d + parityBlocks d"
    and "hashCheck x (RawData block) (Cid block) = None"
    and "\<not> dnFails d DbGet"
    and "\<forall>i. \<not> dnFails d (CaskRead i)"
  shows "DagNode_Get x d' (Cid block) = Inr \<lparr>Cid = Cid block, RawData = RawData block\<rparr>
         \<and> db d' (Cid block) = Some (int (length (RawData block)))
         \<and> (\<exists>enc shards.
               NewErasure (dataBlocks d) (parityBlocks d) (int (length (RawData block))) = Inr enc
               \<and> EncodeData x enc (RawData block) = Inr shards
               \<and> concat (take (encDataBlocks enc) (DecodeDataBlocks x enc shards))
                   = RawData block
                     @ replicate (encDataBlocks enc
                                    * shardLen (encDataBlocks enc) (length (RawData block))
                                  - length (RawData block)) 0)"
proof -
  have get: "DagNode_Get x d' (Cid block) = Inr \<lparr>Cid = Cid block, RawData = RawData block\<rparr>"
    using assms by (rule Get_after_Put)
  from DagNode_Put_success [OF assms(1)] obtain enc shards where
    enc: "NewErasure (dataBlocks d) (parityBlocks d) (int (length (RawData block))) = Inr enc" and
    sh: "EncodeData x enc (RawData block) = Inr shards" and
    dbs: "db d' (Cid block) = Some (int (length (RawData block)))"
    by auto
  from NewErasure_Inr [OF enc] have k: "0 < encDataBlocks enc"
    by simp
  have "\<forall>s \<in> set shards. length s = shardLen (encDataBlocks enc) (length (RawData block))"
    using EncodeData_shard_length [OF sh k] by blast
  then have "DecodeDataBlocks x enc shards = shards"
    using k by (rule DecodeDataBlocks_same_length)
  then have "concat (take (encDataBlocks enc) (DecodeDataBlocks x enc shards))
               = RawData block
                 @ replicate (encDataBlocks enc * shardLen (encDataBlocks enc) (length (RawData block))
                              - length (RawData block)) 0"
    by (simp only: EncodeData_concat [OF sh k])
  with get enc sh dbs show ?thesis by blast
qed

text \<open>C3 on the sample DagNode and the block "123456".\<close>

theorem Put_Get_roundtrip_witness:
  "DagNode_Put exExt exDagNode exBlock = (None, snd (DagNode_Put exExt exDagNode exBlock))
   \<and> int (length (nodes exDagNode)) = dataBlocks exDagNode + parityBlocks exDagNode
   \<and> hashCheck exExt (RawData exBlock) (Cid exBlock) = None
   \<and> \<not> dnFails exDagNode DbGet \<and> (\<forall>i. \<not> dnFails exDagNode (CaskRead i))
   \<and> DagNode_Get exExt (snd (DagNode_Put exExt exDagNode exBlock)) (Cid exBlock) = Inr exBlock"
proof -
  have put: "DagNode_Put exExt exDagNode exBlock = (None, snd (DagNode_Put exExt exDagNode exBlock))"
    using ex_Put_ok by (simp add: prod_eq_iff)
  have wf: "int (length (nodes exDagNode)) = dataBlocks exDagNode + parityBlocks exDagNode"
    by (simp add: exDagNode_def)
  have hash: "hashCheck exExt (RawData exBlock) (Cid exBlock) = None"
    by (simp add: exExt_def)
  have dbget: "\<not> dnFails exDagNode DbGet"
    by (simp add: exDagNode_def)
  have reads: "\<forall>i. \<not> dnFails exDagNode (CaskRead i)"
    by (simp add: exDagNode_def)
  have blk: "\<lparr>Cid = Cid exBlock, RawData = RawData exBlock\<rparr> = exBlock"
    by simp
  from Put_Get_roundtrip [OF put wf hash dbget reads] put wf hash dbget reads blk
  show ?thesis by simp
qed

text \<open>
  Claim C4 against the code. After a successful \<open>Put\<close> of the 6-byte block "123456" on
  the sample DagNode, \<open>GetSize\<close> of its cid returns 9, the sum of the sizes of the three
  3-byte shards, and not the original length 6 that \<open>db\<close> holds and \<open>TestDagNode\<close> expects.
\<close>

theorem GetSize_sums_shards:
  "fst (DagNode_Put exExt exDagNode exBlock) = None
   \<and> int (length (RawData exBlock)) = 6
   \<and> db (snd (DagNode_Put exExt exDagNode exBlock)) (Cid exBlock) = Some 6
   \<and> DagNode_GetSize (snd (DagNode_Put exExt exDagNode exBlock)) (Cid exBlock) = Inr 9"
proof -
  have put: "DagNode_Put exExt exDagNode exBlock = (None, snd (DagNode_Put exExt exDagNode exBlock))"
    using ex_Put_ok by (simp add: prod_eq_iff)
  have wf: "int (length (nodes exDagNode)) = dataBlocks exDagNode + parityBlocks exDagNode"
    by (simp add: exDagNode_def)
  have sizes: "\<forall>i. \<not> dnFails exDagNode (CaskSize i)"
    by (simp add: exDagNode_def)
  have len: "int (length (RawData exBlock)) = 6"
    by (simp add: exBlock_def)
  from DagNode_Put_success [OF put]
  have dbs: "db (snd (DagNode_Put exExt exDagNode exBlock)) (Cid exBlock) = Some 6"
    by (auto simp: len)
  have "int (length (nodes exDagNode)
               * shardLen (nat (dataBlocks exDagNode)) (length (RawData exBlock))) = 9"
    by (simp add: exDagNode_def exBlock_def shardLen_def)
  with GetSize_after_Put [OF put wf sizes]
  have "DagNode_GetSize (snd (DagNode_Put exExt exDagNode exBlock)) (Cid exBlock) = Inr 9"
    by simp
  with ex_Put_ok len dbs show ?thesis
    by (simp only: simp_thms)
qed

subsection \<open>Shard key and cask\<close>

lemma list8: "length hs = 8 \<Longrightarrow> \<exists>a b c d e f g h. hs = [a, b, c, d, e, f, g, h]"
  by (auto simp: eval_nat_numeral length_Suc_conv)

lemma length_sha256_block: "length hs = 8 \<Longrightarrow> length (sha256_block hs blk) = 8"
proof -
  assume "length hs = 8"
  then obtain a b c d e f g h where "hs = [a, b, c, d, e, f, g, h]"
    using list8 by blast
  then show ?thesis
    by (simp split: prod.splits)
qed

lemma length_foldl_sha256_block:
  "length hs = 8 \<Longrightarrow> length (foldl sha256_block hs blks) = 8"
  by (induction blks arbitrary: hs) (simp_all add: length_sha256_block del: sha256_block.simps)

lemma length_concat_be_bytes32: "length (concat (map be_bytes32 ws)) = 4 * length ws"
  by (induction ws) (simp_all add: be_bytes32_def)

lemma length_Sum256: "length (Sum256 msg) = 32"
proof -
  have "length sha256_H0 = 8"
    by (simp add: sha256_H0_def)
  then show ?thesis
    by (simp add: Sum256_def Let_def length_concat_be_bytes32 length_foldl_sha256_block)
qed

lemma length_hex: "length (hex bs) = 2 * length bs"
  unfolding hex_def by (induction bs) simp_all

lemma hexdigit_lower: "hexdigit n \<in> set ''0123456789abcdef''"
proof -
  have "n mod 16 < length ''0123456789abcdef''"
    by simp
  then show ?thesis
    unfolding hexdigit_def by (rule nth_mem)
qed

lemma set_hex: "set (hex bs) \<subseteq> set ''0123456789abcdef''"
  unfolding hex_def using hexdigit_lower by (induction bs) simp_all

lemma hexval_nth: "k < 16 \<Longrightarrow> hexval (''0123456789abcdef'' ! k) = k"
proof -
  assume "k < 16"
  then have "k = 0 \<or> k = 1 \<or> k = 2 \<or> k = 3 \<or> k = 4 \<or> k = 5 \<or> k = 6 \<or> k = 7 \<or> k = 8
      \<or> k = 9 \<or> k = 10 \<or> k = 11 \<or> k = 12 \<or> k = 13 \<or> k = 14 \<or> k = 15"
    by arith
  then show ?thesis
    by (elim disjE) (simp_all add: hexval_def)
qed

lemma hexval_hexdigit: "hexval (hexdigit n) = n mod 16"
  unfolding hexdigit_def by (rule hexval_nth) simp

lemma hex_Cons: "hex (b # bs) = hexdigit (unat b div 16) # hexdigit (unat b mod 16) # hex bs"
  by (simp add: hex_def)

lemma hex_nth:
  "i < length bs \<Longrightarrow>
     hex bs ! (2 * i) = hexdigit (unat (bs ! i) div 16)
     \<and> hex bs ! (2 * i + 1) = hexdigit (unat (bs ! i) mod 16)"
proof (induction bs arbitrary: i)
  case Nil
  then show ?case by simp
next
  case (Cons b bs)
  show ?case
  proof (cases i)
    case 0
    then show ?thesis by (simp add: hex_Cons)
  next
    case (Suc k)
    with Cons.prems have "k < length bs" by simp
    from Cons.IH [OF this] Suc show ?thesis
      by (simp add: hex_Cons)
  qed
qed

lemma hex_decodes:
  assumes "i < length bs"
  shows "16 * hexval (hex bs ! (2 * i)) + hexval (hex bs ! (2 * i + 1)) = unat (bs ! i)"
proof -
  have "unat (bs ! i) < 256"
    using unsigned_less [of "bs ! i"] by simp
  then have "unat (bs ! i) div 16 < 16"
    by simp
  then show ?thesis
    using hex_nth [OF assms] by (simp add: hexval_hexdigit)
qed

text \<open>
  Two published check values: the SHA-256 digest of "abc", computed step by step, and the
  CRC-32 of "123456789".
\<close>

lemma abc_pad:
  "sha256_pad (bytes_of ''abc'') =
     [97, 98, 99, 128, 0, 0, 0, 0, 0, 0, 0, 0, 0, 0, 0, 0,
     0, 0, 0, 0, 0, 0, 0, 0, 0, 0, 0, 0, 0, 0, 0, 0,
     0, 0, 0, 0, 0, 0, 0, 0, 0, 0, 0, 0, 0, 0, 0, 0,
     0, 0, 0, 0, 0, 0, 0, 0, 0, 0, 0, 0, 0, 0, 0, 24]"
  by code_simp

lemma abc_words:
  "map be32 (chunks 16 4
     [97, 98, 99, 128, 0, 0, 0, 0, 0, 0, 0, 0, 0, 0, 0, 0,
     0, 0, 0, 0, 0, 0, 0, 0, 0, 0, 0, 0, 0, 0, 0, 0,
     0, 0, 0, 0, 0, 0, 0, 0, 0, 0, 0, 0, 0, 0, 0, 0,
     0, 0, 0, 0, 0, 0, 0, 0, 0, 0, 0, 0, 0, 0, 0, 24]) =
     [1633837952, 0, 0, 0, 0, 0, 0, 0,
     0, 0, 0, 0, 0, 0, 0, 24]"
  by code_simp

lemma abc_schedule:
  "schedule 48
     [1633837952, 0, 0, 0, 0, 0, 0, 0,
     0, 0, 0, 0, 0, 0, 0, 24] =
     [1633837952, 0, 0, 0, 0, 0,
     0, 0, 0, 0, 0, 0,
     0, 0, 0, 24, 1633837952, 983040,
     2108187653, 1610613702, 1050508152, 25426944, 316456923, 3806512014,
     3357629466, 3073800610, 3854317833, 845560923, 2636160359, 3968280267,
     1881225380, 3552024379, 2482346367, 996719219, 2952069057, 4043988066,
     176896406, 1924104970, 2483675966, 610538786, 2672279444, 4037431130,
     1042573945, 657669027, 206005234, 2215296807, 2049510749, 106709978,
     4215179723, 3430291419, 3118885940, 2845390439, 2226839261, 3256115900,
     344409900, 2987358873, 4015503821, 3957764664, 2682456414, 2025622859,
     2755645205, 1720397816, 4004225740, 313650667]"
  by code_simp

lemma abc_rounds:
  "foldl sha256_round
     (0x6A09E667, 0xBB67AE85, 0x3C6EF372, 0xA54FF53A, 0x510E527F, 0x9B05688C, 0x1F83D9AB, 0x5BE0CD19)
     (zip sha256_K
     [1633837952, 0, 0, 0, 0, 0,
     0, 0, 0, 0, 0, 0,
     0, 0, 0, 24, 1633837952, 983040,
     2108187653, 1610613702, 1050508152, 25426944, 316456923, 3806512014,
     3357629466, 3073800610, 3854317833, 845560923, 2636160359, 3968280267,
     1881225380, 3552024379, 2482346367, 996719219, 2952069057, 4043988066,
     176896406, 1924104970, 2483675966, 610538786, 2672279444, 4037431130,
     1042573945, 657669027, 206005234, 2215296807, 2049510749, 106709978,
     4215179723, 3430291419, 3118885940, 2845390439, 2226839261, 3256115900,
     344409900, 2987358873, 4015503821, 3957764664, 2682456414, 2025622859,
     2755645205, 1720397816, 4004225740, 313650667]) =
     (1349398616, 3550093669, 80891244, 3093179625, 1593118500, 4212265488, 2492278198, 2518632596)"
  by code_simp

lemma abc_digest:
  "hex (concat (map be_bytes32
     [3128432319, 2399260650, 1094795486, 1571693091,
     2953011619, 2518121116, 3021012833, 4060091821])) =
     ''ba7816bf8f01cfea414140de5dae2223b00361a396177a9cb410ff61f20015ad''"
  by code_simp

lemma abc_sha256:
  "sha256String ''abc'' = ''ba7816bf8f01cfea414140de5dae2223b00361a396177a9cb410ff61f20015ad''"
proof -
  have blocks: "chunks (length (sha256_pad (bytes_of ''abc'')) div 64) 64 (sha256_pad (bytes_of ''abc''))
                  = [sha256_pad (bytes_of ''abc'')]"
    unfolding abc_pad by code_simp
  have block: "sha256_block sha256_H0 (sha256_pad (bytes_of ''abc'')) =
     [3128432319, 2399260650, 1094795486, 1571693091,
     2953011619, 2518121116, 3021012833, 4060091821]"
    unfolding abc_pad by (simp add: sha256_H0_def abc_words abc_schedule abc_rounds)
  have "Sum256 (bytes_of ''abc'') = concat (map be_bytes32
     [3128432319, 2399260650, 1094795486, 1571693091,
     2953011619, 2518121116, 3021012833, 4060091821])"
    unfolding Sum256_def Let_def blocks foldl.simps block by (rule refl)
  then show ?thesis
    unfolding sha256String_def by (simp only: abc_digest)
qed

lemma crc_check: "ChecksumIEEE (bytes_of ''123456789'') = 0xCBF43926"
  by code_simp

text \<open>
  Claim C8 fails as stated for the cask inside a store. On the sample DagNode whose second
  member is configured with 7 casks, the shard key of the sample block has CRC-32 residue
  5 modulo 7, yet a successful \<open>Put\<close> stores the second member's shard in cask 158 of that
  member, the residue modulo the 256 casks of the first member, and leaves its cask 5
  absent.
\<close>

theorem cask_of_first_member:
  "CaskNum (nodes exDagNodeMixed ! 0) = 256
   \<and> CaskNum (nodes exDagNodeMixed ! 1) = 7
   \<and> sha256String (Cid exBlock) = ''5f06d6ef9e2bd80b1d9c518a13fb3c151516bd6657634cea90d78d56458eba92''
   \<and> ChecksumIEEE (bytes_of ''5f06d6ef9e2bd80b1d9c518a13fb3c151516bd6657634cea90d78d56458eba92'') mod 7 = 5
   \<and> ChecksumIEEE (bytes_of ''5f06d6ef9e2bd80b1d9c518a13fb3c151516bd6657634cea90d78d56458eba92'') mod 256 = 158
   \<and> fst (DagNode_Put exExt exDagNodeMixed exBlock) = None
   \<and> member_holds (nodes (snd (DagNode_Put exExt exDagNodeMixed exBlock)) ! 1) 158 ''5f06d6ef9e2bd80b1d9c518a13fb3c151516bd6657634cea90d78d56458eba92'' [0x34, 0x35, 0x36]
   \<and> caskMap (nodes (snd (DagNode_Put exExt exDagNodeMixed exBlock)) ! 1) 5 = None"
proof -
  have a: "CaskNum (nodes exDagNodeMixed ! 0) = 256" "CaskNum (nodes exDagNodeMixed ! 1) = 7"
    by (simp_all add: exDagNodeMixed_def exNode_def exNode7_def)
  have b: "ChecksumIEEE (bytes_of ''5f06d6ef9e2bd80b1d9c518a13fb3c151516bd6657634cea90d78d56458eba92'') mod 7 = 5" "ChecksumIEEE (bytes_of ''5f06d6ef9e2bd80b1d9c518a13fb3c151516bd6657634cea90d78d56458eba92'') mod 256 = 158"
    by (simp_all add: key_crc)
  from ex_Mixed_Put [unfolded ex_cask ex_exShards ex_keyCode] a b ex_keyCode show ?thesis
    by (simp only: simp_thms)
qed

text \<open>
  Claim C8, amended. The shard key of a cid string is the lowercase hexadecimal rendering
  of its SHA-256 digest: 64 characters, all of them digits or lowercase letters a to f,
  and the two characters at positions \<open>2i\<close> and \<open>2i + 1\<close> are the high and the low
  hexadecimal digit of byte \<open>i\<close> of the digest; \<open>Sum256\<close> and \<open>ChecksumIEEE\<close> give the
  published check values. The cask chosen for a key is \<open>CRC32(key) mod CaskNum\<close> with
  \<open>CaskNum\<close> read from the first member of the DagNode, and is below that \<open>CaskNum\<close>; it
  is this cask that a successful \<open>Put\<close> writes on every member, whatever the member's own
  \<open>CaskNum\<close>. The cask is a function of the key and that \<open>CaskNum\<close> alone: \<open>fileID\<close> gives
  the same cask after any \<open>Put\<close>, and in any two states whose members have the same
  \<open>CaskNum\<close>, whatever they store.
\<close>

theorem shard_key_and_cask:
  "length (sha256String c) = 64
   \<and> set (sha256String c) \<subseteq> set ''0123456789abcdef''
   \<and> (\<forall>i<32. 16 * hexval (sha256String c ! (2 * i)) + hexval (sha256String c ! (2 * i + 1))
                = unat (Sum256 (bytes_of c) ! i))
   \<and> sha256String ''abc'' = ''ba7816bf8f01cfea414140de5dae2223b00361a396177a9cb410ff61f20015ad''
   \<and> ChecksumIEEE (bytes_of ''123456789'') = 0xCBF43926
   \<and> (nodes d = node # rest \<and> CaskNum node \<noteq> 0 \<longrightarrow>
        fileID d key = Inr (ChecksumIEEE (bytes_of key) mod CaskNum node)
        \<and> ChecksumIEEE (bytes_of key) mod CaskNum node < CaskNum node
        \<and> fileID (snd (DagNode_Put x d block)) key = fileID d key
        \<and> (map CaskNum (nodes d') = map CaskNum (nodes d) \<longrightarrow> fileID d' key = fileID d key)
        \<and> (fst (DagNode_Put x d block) = None \<longrightarrow>
             (\<forall>i<length (nodes d).
                 \<exists>v. member_holds (nodes (snd (DagNode_Put x d block)) ! i)
                        (ChecksumIEEE (bytes_of (sha256String (Cid block))) mod CaskNum node)
                        (sha256String (Cid block)) v)))"
proof -
  have a: "length (sha256String c) = 64"
    by (simp add: sha256String_def length_hex length_Sum256)
  have b: "set (sha256String c) \<subseteq> set ''0123456789abcdef''"
    unfolding sha256String_def by (rule set_hex)
  have h: "\<forall>i<32. 16 * hexval (sha256String c ! (2 * i)) + hexval (sha256String c ! (2 * i + 1))
                = unat (Sum256 (bytes_of c) ! i)"
    unfolding sha256String_def using hex_decodes [of _ "Sum256 (bytes_of c)"]
    by (simp add: length_Sum256)
  have c: "nodes d = node # rest \<and> CaskNum node \<noteq> 0 \<longrightarrow>
        fileID d key = Inr (ChecksumIEEE (bytes_of key) mod CaskNum node)
        \<and> ChecksumIEEE (bytes_of key) mod CaskNum node < CaskNum node"
    by (simp add: fileID_def word_mod_less_divisor word_neq_0_conv)
  have p: "fileID (snd (DagNode_Put x d block)) key = fileID d key"
    using DagNode_Put_CaskNum by (rule fileID_nodes)
  have e: "map CaskNum (nodes d') = map CaskNum (nodes d) \<longrightarrow> fileID d' key = fileID d key"
    using fileID_nodes by blast
  have m: "nodes d = node # rest \<and> CaskNum node \<noteq> 0 \<longrightarrow> fst (DagNode_Put x d block) = None \<longrightarrow>
             (\<forall>i<length (nodes d).
                 \<exists>v. member_holds (nodes (snd (DagNode_Put x d block)) ! i)
                        (ChecksumIEEE (bytes_of (sha256String (Cid block))) mod CaskNum node)
                        (sha256String (Cid block)) v)"
  proof (intro impI)
    assume n: "nodes d = node # rest \<and> CaskNum node \<noteq> 0"
    assume "fst (DagNode_Put x d block) = None"
    then have "DagNode_Put x d block = (None, snd (DagNode_Put x d block))"
      by (simp add: prod_eq_iff)
    from DagNode_Put_success [OF this] obtain enc shards fid ns where
      f: "fileID d (sha256String (Cid block)) = Inr fid" and
      pl: "put_loop (dnFails d) (sha256String (Cid block)) fid shards 0 (nodes d) = (None, ns)" and
      d': "snd (DagNode_Put x d block)
           = d\<lparr>db := (db d)(Cid block \<mapsto> int (length (RawData block))), nodes := ns\<rparr>"
      by auto
    from f n have fid: "fid = ChecksumIEEE (bytes_of (sha256String (Cid block))) mod CaskNum node"
      by (simp add: fileID_def)
    from put_loop_success [OF pl] d' fid
    show "\<forall>i<length (nodes d).
                 \<exists>v. member_holds (nodes (snd (DagNode_Put x d block)) ! i)
                        (ChecksumIEEE (bytes_of (sha256String (Cid block))) mod CaskNum node)
                        (sha256String (Cid block)) v"
      by auto
  qed
  from a b h abc_sha256 crc_check c p e m show ?thesis
    by blast
qed

text \<open>
  C8, amended, on the sample DagNodes: the first and the last byte of the digest of the
  sample cid read back from the shard key, and cask 158 before and after \<open>Put\<close>, also on
  the member with 7 casks.
\<close>

theorem shard_key_and_cask_witness:
  "unat (Sum256 (bytes_of (Cid exBlock)) ! 0) = 95
   \<and> unat (Sum256 (bytes_of (Cid exBlock)) ! 31) = 146
   \<and> sha256String ''abc'' = ''ba7816bf8f01cfea414140de5dae2223b00361a396177a9cb410ff61f20015ad''
   \<and> fileID exDagNode ''5f06d6ef9e2bd80b1d9c518a13fb3c151516bd6657634cea90d78d56458eba92'' = Inr 158
   \<and> fileID (snd (DagNode_Put exExt exDagNode exBlock)) ''5f06d6ef9e2bd80b1d9c518a13fb3c151516bd6657634cea90d78d56458eba92'' = Inr 158
   \<and> fileID exDagNodeFull ''5f06d6ef9e2bd80b1d9c518a13fb3c151516bd6657634cea90d78d56458eba92'' = Inr 158
   \<and> fileID exDagNodeMixed ''5f06d6ef9e2bd80b1d9c518a13fb3c151516bd6657634cea90d78d56458eba92'' = Inr 158
   \<and> caskMap (nodes (snd (DagNode_Put exExt exDagNodeMixed exBlock)) ! 1) 158 \<noteq> None"
proof -
  note t = shard_key_and_cask [of "Cid exBlock" exDagNode exNode "[exNode, exNode]" "''5f06d6ef9e2bd80b1d9c518a13fb3c151516bd6657634cea90d78d56458eba92''"
      exExt exBlock exDagNodeFull]
  note u = shard_key_and_cask [of "Cid exBlock" exDagNodeMixed exNode "[exNode7, exNode]" "''5f06d6ef9e2bd80b1d9c518a13fb3c151516bd6657634cea90d78d56458eba92''"
      exExt exBlock exDagNodeFull]
  have n: "nodes exDagNode = exNode # [exNode, exNode] \<and> CaskNum exNode \<noteq> 0"
    by (simp add: exDagNode_def exNode_def)
  have n': "nodes exDagNodeMixed = exNode # [exNode7, exNode] \<and> CaskNum exNode \<noteq> 0"
    by (simp add: exDagNodeMixed_def exNode_def)
  have cn: "CaskNum exNode = 256"
    by (simp add: exNode_def)
  have m: "map CaskNum (nodes exDagNodeFull) = map CaskNum (nodes exDagNode)"
    by (simp add: exDagNodeFull_def)
  have v: "ChecksumIEEE (bytes_of ''5f06d6ef9e2bd80b1d9c518a13fb3c151516bd6657634cea90d78d56458eba92'') mod 256 = 158"
    by (simp add: key_crc)
  from t have dec: "\<forall>i<32. 16 * hexval (sha256String (Cid exBlock) ! (2 * i))
                        + hexval (sha256String (Cid exBlock) ! (2 * i + 1))
                = unat (Sum256 (bytes_of (Cid exBlock)) ! i)"
    by (elim conjE)
  have "16 * hexval (sha256String (Cid exBlock) ! (2 * 0))
                        + hexval (sha256String (Cid exBlock) ! (2 * 0 + 1))
                = unat (Sum256 (bytes_of (Cid exBlock)) ! 0)"
    using dec by (metis zero_less_numeral)
  then have s0: "unat (Sum256 (bytes_of (Cid exBlock)) ! 0) = 95"
    by (simp add: ex_keyCode hexval_def)
  have "(31::nat) < 32" by simp
  with dec have "16 * hexval (sha256String (Cid exBlock) ! (2 * 31))
                        + hexval (sha256String (Cid exBlock) ! (2 * 31 + 1))
                = unat (Sum256 (bytes_of (Cid exBlock)) ! 31)"
    by blast
  then have s31: "unat (Sum256 (bytes_of (Cid exBlock)) ! 31) = 146"
    by (simp add: ex_keyCode hexval_def)
  from t have abc: "sha256String ''abc'' = ''ba7816bf8f01cfea414140de5dae2223b00361a396177a9cb410ff61f20015ad''"
    by (elim conjE)
  from t n have f: "fileID exDagNode ''5f06d6ef9e2bd80b1d9c518a13fb3c151516bd6657634cea90d78d56458eba92'' = Inr (ChecksumIEEE (bytes_of ''5f06d6ef9e2bd80b1d9c518a13fb3c151516bd6657634cea90d78d56458eba92'') mod CaskNum exNode)"
    and g: "fileID (snd (DagNode_Put exExt exDagNode exBlock)) ''5f06d6ef9e2bd80b1d9c518a13fb3c151516bd6657634cea90d78d56458eba92'' = fileID exDagNode ''5f06d6ef9e2bd80b1d9c518a13fb3c151516bd6657634cea90d78d56458eba92''"
    and k: "map CaskNum (nodes exDagNodeFull) = map CaskNum (nodes exDagNode) \<longrightarrow>
        fileID exDagNodeFull ''5f06d6ef9e2bd80b1d9c518a13fb3c151516bd6657634cea90d78d56458eba92'' = fileID exDagNode ''5f06d6ef9e2bd80b1d9c518a13fb3c151516bd6657634cea90d78d56458eba92''"
    by blast+
  from f have f': "fileID exDagNode ''5f06d6ef9e2bd80b1d9c518a13fb3c151516bd6657634cea90d78d56458eba92'' = Inr 158"
    by (simp only: cn v)
  from g f' have g': "fileID (snd (DagNode_Put exExt exDagNode exBlock)) ''5f06d6ef9e2bd80b1d9c518a13fb3c151516bd6657634cea90d78d56458eba92'' = Inr 158"
    by simp
  from k m f' have k': "fileID exDagNodeFull ''5f06d6ef9e2bd80b1d9c518a13fb3c151516bd6657634cea90d78d56458eba92'' = Inr 158"
    by simp
  from u n' have f2: "fileID exDagNodeMixed ''5f06d6ef9e2bd80b1d9c518a13fb3c151516bd6657634cea90d78d56458eba92'' = Inr (ChecksumIEEE (bytes_of ''5f06d6ef9e2bd80b1d9c518a13fb3c151516bd6657634cea90d78d56458eba92'') mod CaskNum exNode)"
    and h2: "fst (DagNode_Put exExt exDagNodeMixed exBlock) = None \<longrightarrow>
             (\<forall>i<length (nodes exDagNodeMixed).
                 \<exists>v. member_holds (nodes (snd (DagNode_Put exExt exDagNodeMixed exBlock)) ! i)
                        (ChecksumIEEE (bytes_of (sha256String (Cid exBlock))) mod CaskNum exNode)
                        (sha256String (Cid exBlock)) v)"
    by blast+
  from f2 have f2': "fileID exDagNodeMixed ''5f06d6ef9e2bd80b1d9c518a13fb3c151516bd6657634cea90d78d56458eba92'' = Inr 158"
    by (simp only: cn v)
  have len1: "1 < length (nodes exDagNodeMixed)"
    by (simp add: exDagNodeMixed_def)
  from ex_Mixed_Put have ok: "fst (DagNode_Put exExt exDagNodeMixed exBlock) = None"
    by (rule conjunct1)
  from h2 [rule_format, OF ok len1]
  have "\<exists>v. member_holds (nodes (snd (DagNode_Put exExt exDagNodeMixed exBlock)) ! 1)
                        (ChecksumIEEE (bytes_of (sha256String (Cid exBlock))) mod CaskNum exNode)
                        (sha256String (Cid exBlock)) v" .
  then have c2: "caskMap (nodes (snd (DagNode_Put exExt exDagNodeMixed exBlock)) ! 1) 158 \<noteq> None"
    unfolding cn ex_cask by (auto simp: member_holds_def split: option.splits)
  from s0 s31 abc f' g' k' f2' c2 show ?thesis
    by (simp only: simp_thms)
qed

end
